theory Spec2Isabelle
  imports Complex_Main "HOL-Library.Sublist" "HOL-Library.Multiset"
begin

section \<open>Data model\<close>

text \<open>
  Go strings are byte strings and are modelled as \<^typ>\<open>string\<close>, a list of 8-bit
  characters: \<open>len\<close> is \<^const>\<open>length\<close>, and \<open>strings.HasPrefix\<close> and
  \<open>strings.Contains\<close> compare bytes. A rune is a code point, an \<^typ>\<open>int\<close>; the
  ranking engine decodes and encodes UTF-8 as the library does. Go's \<open>int\<close> is
  \<^typ>\<open>int\<close>: no arithmetic of the modelled code leaves the 64-bit range. A
  \<open>float64\<close> is only ever copied, never computed with, and is carried as a
  \<^typ>\<open>real\<close>.
\<close>

text \<open>
  \<open>kodi.MediaItem\<close> (internal/kodi/client.go). The \<open>Art\<close> map is an association
  list (a nil map and an empty map read alike); \<open>StreamDetails\<close> is the optional
  pointer, holding the durations of its \<open>Video\<close> entries.
\<close>

record MediaItem =
  ID :: int
  Label :: string
  Title :: string
  Rating :: real
  Year :: int
  Plot :: string
  Runtime :: int
  Duration :: int
  Thumbnail :: string
  Art :: "(string \<times> string) list"
  StreamDetails :: "int list option"
  ShowTitle :: string
  Season :: int
  Episode :: int
  EpisodeCount :: int

section \<open>Ranking engine: FuzzySearch\<close>

subsection \<open>Library functions on strings\<close>

text \<open>
  \<open>utf8.DecodeRuneInString\<close>: the first code point of a string and its width in
  bytes. A byte that does not start a well-formed sequence (a continuation byte, an
  overlong or truncated sequence, a surrogate, a value above U+10FFFF) decodes to
  \<open>RuneError\<close>, U+FFFD, of width 1. \<open>runes\<close> is the conversion \<open>[]rune(s)\<close>, which is
  also the sequence a \<open>range\<close> loop over the string visits.
\<close>

type_synonym rune = int

definition RuneError :: rune where
  "RuneError = 65533"

definition DecodeRuneInString :: "string \<Rightarrow> rune \<times> nat" where
  "DecodeRuneInString s =
     (if s = [] then (RuneError, 0)
      else
        (let n = length s;
             s0 = (of_char (s ! 0) :: nat)
         in if s0 < 128 then (int s0, 1)
            else if s0 < 194 \<or> 244 < s0 then (RuneError, 1)
            else
              (let sz = (if s0 < 224 then 2 else if s0 < 240 then 3 else 4 :: nat);
                   lo = (if s0 = 224 then 160 else if s0 = 240 then 144 else 128 :: nat);
                   hi = (if s0 = 237 then 159 else if s0 = 244 then 143 else 191 :: nat)
               in if n < sz then (RuneError, 1)
                  else
                    (let s1 = (of_char (s ! 1) :: nat)
                     in if s1 < lo \<or> hi < s1 then (RuneError, 1)
                        else if sz \<le> 2 then (int (s0 mod 32 * 64 + s1 mod 64), 2)
                        else
                          (let s2 = (of_char (s ! 2) :: nat)
                           in if s2 < 128 \<or> 191 < s2 then (RuneError, 1)
                              else if sz \<le> 3
                                then (int (s0 mod 16 * 4096 + s1 mod 64 * 64 + s2 mod 64), 3)
                              else
                                (let s3 = (of_char (s ! 3) :: nat)
                                 in if s3 < 128 \<or> 191 < s3 then (RuneError, 1)
                                    else (int (s0 mod 8 * 262144 + s1 mod 64 * 4096
                                               + s2 mod 64 * 64 + s3 mod 64), 4)))))))"

function runes :: "string \<Rightarrow> rune list" where
  "runes s =
     (if s = [] then []
      else (case DecodeRuneInString s of (r, width) \<Rightarrow> r # runes (drop width s)))"
  by pat_completeness auto

termination
proof (relation "measure length")
  show "wf (measure length)"
    by simp
next
  fix s :: string and r :: rune and width :: nat
  assume "s \<noteq> []" and "(r, width) = DecodeRuneInString s"
  then have "0 < width"
    by (auto simp: DecodeRuneInString_def Let_def split: if_splits)
  then show "(drop width s, s) \<in> measure length"
    using \<open>s \<noteq> []\<close> by simp
qed

declare runes.simps [simp del]

text \<open>
  \<open>utf8.AppendRune\<close>, which \<open>strings.Builder.WriteRune\<close> calls: the UTF-8 encoding of
  a code point, that of \<open>RuneError\<close> for a value that is not one (\<open>valid_rune\<close> holds
  of the code points, those up to U+10FFFF that are not surrogates). \<open>strings.Map\<close>
  applies the mapping to every code point of the string and writes the results, leaving
  out the negative ones.
\<close>

definition EncodeRune :: "rune \<Rightarrow> string" where
  "EncodeRune r =
     (if 0 \<le> r \<and> r \<le> 127 then [char_of (nat r)]
      else if 0 \<le> r \<and> r \<le> 2047
        then [char_of (192 + nat r div 64), char_of (128 + nat r mod 64)]
      else
        (let r = (if r < 0 \<or> 1114111 < r \<or> (55296 \<le> r \<and> r \<le> 57343) then RuneError else r)
         in if r \<le> 65535
              then [char_of (224 + nat r div 4096), char_of (128 + nat r div 64 mod 64),
                    char_of (128 + nat r mod 64)]
            else [char_of (240 + nat r div 262144), char_of (128 + nat r div 4096 mod 64),
                  char_of (128 + nat r div 64 mod 64), char_of (128 + nat r mod 64)]))"

definition valid_rune :: "rune \<Rightarrow> bool" where
  "valid_rune r = (0 \<le> r \<and> r \<le> 1114111 \<and> \<not> (55296 \<le> r \<and> r \<le> 57343))"

definition Map :: "(rune \<Rightarrow> rune) \<Rightarrow> string \<Rightarrow> string" where
  "Map mapping s =
     concat (map (\<lambda>c. let r = mapping c in if 0 \<le> r then EncodeRune r else []) (runes s))"

text \<open>
  \<open>strings.ToLower\<close>. A string of ASCII bytes only is lower-cased byte by byte, \<open>A\<close>
  to \<open>Z\<close> becoming \<open>a\<close> to \<open>z\<close>; any other string is mapped with
  \<open>unicode.ToLower\<close>. That function is the case table of the Unicode standard, which
  the library holds as data: it is the argument \<open>lower\<close>, and nothing is assumed of it.
\<close>

definition lower_byte :: "char \<Rightarrow> char" where
  "lower_byte c =
     (let n = (of_char c :: nat) in if 65 \<le> n \<and> n \<le> 90 then char_of (n + 32) else c)"

definition isASCII :: "string \<Rightarrow> bool" where
  "isASCII s = list_all (\<lambda>c. (of_char c :: nat) < 128) s"

definition ToLower :: "(rune \<Rightarrow> rune) \<Rightarrow> string \<Rightarrow> string" where
  "ToLower lower s = (if isASCII s then map lower_byte s else Map lower s)"

definition HasPrefix :: "string \<Rightarrow> string \<Rightarrow> bool" where
  "HasPrefix s p = (length s \<ge> length p \<and> take (length p) s = p)"

fun Contains :: "string \<Rightarrow> string \<Rightarrow> bool" where
  "Contains [] sub = (sub = [])"
| "Contains (c # s) sub = (HasPrefix (c # s) sub \<or> Contains s sub)"

subsection \<open>levenshtein\<close>

text \<open>
  The two-row dynamic program of \<open>levenshtein\<close>, on the code points of the two strings.
  \<open>inner_step\<close> is the body of the loop over \<open>j\<close>, \<open>outer_step\<close> the body of the loop
  over \<open>i\<close>; both loops run over \<open>1..n\<close> and \<open>1..m\<close>, so every index read below is in
  range.
\<close>

definition inner_step :: "'a list \<Rightarrow> 'a \<Rightarrow> int list \<Rightarrow> nat \<Rightarrow> int list \<Rightarrow> int list" where
  "inner_step r1 c previousRow j currentRow =
     (let add = previousRow ! j + 1;
          del = currentRow ! (j - 1) + 1;
          change = previousRow ! (j - 1);
          change = (if r1 ! (j - 1) \<noteq> c then change + 1 else change)
      in currentRow[j := min add (min del change)])"

definition outer_step :: "'a list \<Rightarrow> 'a list \<Rightarrow> nat \<Rightarrow> nat \<Rightarrow> int list \<Rightarrow> int list" where
  "outer_step r1 r2 n i currentRow =
     (let previousRow = currentRow;
          currentRow = (replicate (n + 1) 0)[0 := int i]
      in fold (inner_step r1 (r2 ! (i - 1)) previousRow) [1..<Suc n] currentRow)"

definition levenshtein :: "string \<Rightarrow> string \<Rightarrow> int" where
  "levenshtein s1 s2 =
     (let r1 = runes s1; r2 = runes s2;
          (r1, r2) = (if length r1 > length r2 then (r2, r1) else (r1, r2));
          n = length r1; m = length r2;
          currentRow = map int [0..<Suc n]
      in fold (outer_step r1 r2 n) [1..<Suc m] currentRow ! n)"



text \<open>
  The distance as a number of edits: \<open>edits n xs ys\<close> holds when \<open>xs\<close> becomes \<open>ys\<close>
  by \<open>n\<close> substitutions, deletions and insertions of single symbols, the other
  symbols being kept. The Levenshtein distance is the least such \<open>n\<close>.
\<close>

inductive edits :: "nat \<Rightarrow> 'a list \<Rightarrow> 'a list \<Rightarrow> bool" where
  e_nil: "edits 0 [] []"
| e_keep: "edits n xs ys \<Longrightarrow> edits n (x # xs) (x # ys)"
| e_substitute: "edits n xs ys \<Longrightarrow> edits (Suc n) (x # xs) (y # ys)"
| e_delete: "edits n xs ys \<Longrightarrow> edits (Suc n) (x # xs) ys"
| e_insert: "edits n xs ys \<Longrightarrow> edits (Suc n) xs (y # ys)"

subsection \<open>FuzzySearch\<close>

text \<open>
  \<open>target\<close> is the loop's variable of that name: the lower-cased title, followed by a
  space and the lower-cased show title when there is one. \<open>threshold\<close> is the
  admission bound of the fuzzy tier, computed from \<open>len(query)\<close>, the number of bytes
  of the lower-cased query. \<open>match_item\<close> is the body of the loop over the items: it
  appends the item with its score to \<open>results\<close>, or leaves \<open>results\<close> as it is. The
  anonymous struct of item and score is a pair.
\<close>

definition target :: "(rune \<Rightarrow> rune) \<Rightarrow> MediaItem \<Rightarrow> string" where
  "target lower it =
     (let t = ToLower lower (Title it)
      in if ShowTitle it \<noteq> [] then t @ '' '' @ ToLower lower (ShowTitle it) else t)"

definition threshold :: "string \<Rightarrow> int" where
  "threshold query =
     (let t = int (length query) div 2 in if t < 3 then 3 else t)"

definition match_item ::
  "(rune \<Rightarrow> rune) \<Rightarrow> string \<Rightarrow> MediaItem \<Rightarrow> (MediaItem \<times> int) list
     \<Rightarrow> (MediaItem \<times> int) list" where
  "match_item lower query it results =
     (if HasPrefix (target lower it) query then results @ [(it, - 50)]
      else if Contains (target lower it) query then results @ [(it, 0)]
      else (let dist = levenshtein query (target lower it)
            in if dist \<le> threshold query then results @ [(it, dist)] else results))"

text \<open>
  \<open>sort.Slice\<close> is the library's sort. Its contract is all the code relies on: the
  slice is permuted so that no element is followed by one that is less, and the
  library documents that equal elements may change their order. \<open>FuzzySearch\<close>
  takes the case table and the sort as its first arguments; \<open>sort_Slice_contract\<close> is
  the contract for the comparison \<open>results[i].score < results[j].score\<close> of the
  source.
\<close>

definition sort_Slice_contract ::
  "(('a \<times> int) list \<Rightarrow> ('a \<times> int) list) \<Rightarrow> bool" where
  "sort_Slice_contract srt =
     (\<forall>rs. mset (srt rs) = mset rs \<and> sorted_wrt (\<lambda>x y. \<not> snd y < snd x) (srt rs))"

definition FuzzySearch ::
  "(rune \<Rightarrow> rune) \<Rightarrow> ((MediaItem \<times> int) list \<Rightarrow> (MediaItem \<times> int) list)
     \<Rightarrow> MediaItem list \<Rightarrow> string \<Rightarrow> MediaItem list" where
  "FuzzySearch lower srt items query =
     (let query = ToLower lower query;
          results = fold (match_item lower query) items [];
          results = srt results;
          out = map fst results
      in if length out > 20 then take 20 out else out)"

text \<open>
  The fixtures that \<open>GetMovies\<close> and \<open>GetTVShows\<close> return for the host
  \<open>mock\<close>.
\<close>

definition mock_movies :: "MediaItem list" where
  "mock_movies =
     [\<lparr>ID = 1, Label = [], Title = ''The Matrix'', Rating = 87 / 10, Year = 1999, Plot = [],
        Runtime = 8160, Duration = 0,
        Thumbnail = ''https://www.themoviedb.org/t/p/w600_and_h900_bestv2/f89U3Y9YvYvwsf9qTMRS9XBt7qy.jpg'',
        Art = [], StreamDetails = None, ShowTitle = [], Season = 0, Episode = 0,
        EpisodeCount = 0\<rparr>,
      \<lparr>ID = 2, Label = [], Title = ''Inception'', Rating = 88 / 10, Year = 2010, Plot = [],
        Runtime = 8880, Duration = 0,
        Thumbnail = ''https://www.themoviedb.org/t/p/w600_and_h900_bestv2/edv5CZv0jH9upBPaY6PeBjj9d7A.jpg'',
        Art = [], StreamDetails = None, ShowTitle = [], Season = 0, Episode = 0,
        EpisodeCount = 0\<rparr>]"

definition mock_tvshows :: "MediaItem list" where
  "mock_tvshows =
     [\<lparr>ID = 201, Label = [], Title = ''Breaking Bad'', Rating = 95 / 10, Year = 2008, Plot = [],
        Runtime = 0, Duration = 0,
        Thumbnail = ''https://www.themoviedb.org/t/p/w600_and_h900_bestv2/ggws000vxiO0Hcm37m0B3m6idXN.jpg'',
        Art = [], StreamDetails = None, ShowTitle = [], Season = 0, Episode = 0,
        EpisodeCount = 62\<rparr>,
      \<lparr>ID = 202, Label = [], Title = ''The Office'', Rating = 89 / 10, Year = 2005, Plot = [],
        Runtime = 0, Duration = 0,
        Thumbnail = ''https://www.themoviedb.org/t/p/w600_and_h900_bestv2/7D980V87m274Y6968mY96Jvwpis.jpg'',
        Art = [], StreamDetails = None, ShowTitle = [], Season = 0, Episode = 0,
        EpisodeCount = 201\<rparr>]"


text \<open>
  Thirteen items for the query \<open>a\<close>: the first twelve contain it, the last one
  starts with it. \<open>reversing_sort\<close> is a sort that meets the contract of
  \<open>sort.Slice\<close> and reverses the elements of equal score.
\<close>

definition tied_items :: "MediaItem list" where
  "tied_items =
     map (\<lambda>k. \<lparr>ID = int k, Label = [], Title = (if k = 12 then ''a'' else ''xa''), Rating = 0,
                Year = 0, Plot = [], Runtime = 0, Duration = 0, Thumbnail = [], Art = [],
                StreamDetails = None, ShowTitle = [], Season = 0, Episode = 0,
                EpisodeCount = 0\<rparr>) [0..<13]"

definition reversing_sort :: "('a \<times> int) list \<Rightarrow> ('a \<times> int) list" where
  "reversing_sort rs = sort_key snd (rev rs)"

section \<open>Protocol client: decoding and the list calls\<close>

text \<open>
  The errors the modelled functions return. \<open>SyntaxError\<close> and
  \<open>UnmarshalTypeError\<close> are the two failures of \<open>json.Unmarshal\<close>,
  \<open>TransportError\<close> a failed HTTP round trip, \<open>RpcError message code\<close> the
  error \<open>kodi rpc error: message (code: code)\<close> of \<open>sendRequest\<close>,
  \<open>ImageStatusError\<close> the error \<open>kodi image error: status\<close>, \<open>RequestError\<close>
  a URL that \<open>http.NewRequest\<close> refuses, \<open>FileError\<close> a failed create or copy
  of the poster file, \<open>DbError\<close> a failed database call and \<open>ListNotFound\<close> the
  error of \<open>getKodiClient\<close>.

  \<open>NilDereference\<close> is not an error a function returns: it is the run-time panic
  \<open>invalid memory address or nil pointer dereference\<close>. A function that is
  given it as its error did not return; the panic ends each caller in turn, none of
  which recovers it, up to the HTTP server, which closes the connection.
\<close>

datatype error =
    SyntaxError
  | UnmarshalTypeError
  | TransportError
  | RpcError string int
  | ImageStatusError int
  | RequestError
  | FileError
  | DbError
  | ListNotFound int
  | NilDereference

text \<open>
  One JSON object as \<open>MediaItem.UnmarshalJSON\<close> reads it. The first five fields
  are those of the auxiliary struct \<open>aux\<close> (the keys \<open>movieid\<close>, \<open>episodeid\<close>,
  \<open>tvshowid\<close>, \<open>seasonid\<close> and \<open>episode\<close>), which starts from zero, so an absent
  key reads \<open>0\<close>. The key \<open>episode\<close> belongs to \<open>aux.Episodes\<close>, the shallower of
  the two fields tagged with it, so the embedded item's \<open>Episode\<close> is never decoded.
  The \<open>j_\<close> fields are the keys of the embedded \<open>*Alias\<close>, \<open>None\<close> for an absent
  key, which leaves the receiver's field as it was.

  \<open>raw_item\<close> is the text handed to \<open>UnmarshalJSON\<close>: an object whose values all
  have the expected types, an object of which some value has the wrong type (the
  payload holds its well-typed keys; \<open>json.Unmarshal\<close> stores those and reports an
  \<open>UnmarshalTypeError\<close>), the literal \<open>null\<close>, or text that is not valid JSON. A
  value that is neither an object nor \<open>null\<close> is an object without well-typed keys
  of which the value has the wrong type.
\<close>

record payload =
  movieid :: int
  episodeid :: int
  tvshowid :: int
  seasonid :: int
  episode :: int
  j_id :: "int option"
  j_label :: "string option"
  j_title :: "string option"
  j_rating :: "real option"
  j_year :: "int option"
  j_plot :: "string option"
  j_runtime :: "int option"
  j_duration :: "int option"
  j_thumbnail :: "string option"
  j_art :: "(string \<times> string) list option"
  j_streamdetails :: "int list option"
  j_showtitle :: "string option"
  j_season :: "int option"
  j_episode_count :: "int option"

datatype raw_item = Object payload | Mistyped payload | Null | Invalid

text \<open>
  The zero value of \<open>MediaItem\<close>, and the effect of \<open>json.Unmarshal(data, &aux)\<close> on
  the receiver through the embedded alias pointer.
\<close>

definition zero_item :: MediaItem where
  "zero_item =
     \<lparr>ID = 0, Label = [], Title = [], Rating = 0, Year = 0, Plot = [], Runtime = 0,
      Duration = 0, Thumbnail = [], Art = [], StreamDetails = None, ShowTitle = [],
      Season = 0, Episode = 0, EpisodeCount = 0\<rparr>"

definition keep :: "'a option \<Rightarrow> 'a \<Rightarrow> 'a" where
  "keep v old = (case v of None \<Rightarrow> old | Some x \<Rightarrow> x)"

definition decode_alias :: "payload \<Rightarrow> MediaItem \<Rightarrow> MediaItem" where
  "decode_alias p m =
     m\<lparr>ID := keep (j_id p) (ID m),
       Label := keep (j_label p) (Label m),
       Title := keep (j_title p) (Title m),
       Rating := keep (j_rating p) (Rating m),
       Year := keep (j_year p) (Year m),
       Plot := keep (j_plot p) (Plot m),
       Runtime := keep (j_runtime p) (Runtime m),
       Duration := keep (j_duration p) (Duration m),
       Thumbnail := keep (j_thumbnail p) (Thumbnail m),
       Art := (case j_art p of None \<Rightarrow> Art m | Some a \<Rightarrow> a @ Art m),
       StreamDetails := (case j_streamdetails p of None \<Rightarrow> StreamDetails m | Some v \<Rightarrow> Some v),
       ShowTitle := keep (j_showtitle p) (ShowTitle m),
       Season := keep (j_season p) (Season m),
       EpisodeCount := keep (j_episode_count p) (EpisodeCount m)\<rparr>"

text \<open>
  The three blocks of \<open>UnmarshalJSON\<close> after the decoding: the identity chain, the
  choice of the runtime, and the title fallback.
\<close>

definition resolve_id :: "payload \<Rightarrow> MediaItem \<Rightarrow> MediaItem" where
  "resolve_id aux m =
     (if movieid aux \<noteq> 0 then m\<lparr>ID := movieid aux\<rparr>
      else if episodeid aux \<noteq> 0 then m\<lparr>ID := episodeid aux, Episode := episode aux\<rparr>
      else if tvshowid aux \<noteq> 0 then m\<lparr>ID := tvshowid aux, EpisodeCount := episode aux\<rparr>
      else if seasonid aux \<noteq> 0 then m\<lparr>ID := seasonid aux, EpisodeCount := episode aux\<rparr>
      else m)"

definition resolve_runtime :: "MediaItem \<Rightarrow> MediaItem" where
  "resolve_runtime m =
     (if Runtime m = 0 then
        (if Duration m \<noteq> 0 then m\<lparr>Runtime := Duration m\<rparr>
         else (case StreamDetails m of
                 Some (d # ds) \<Rightarrow> m\<lparr>Runtime := d\<rparr>
               | _ \<Rightarrow> m))
      else m)"

definition resolve_title :: "MediaItem \<Rightarrow> MediaItem" where
  "resolve_title m = (if Title m = [] \<and> Label m \<noteq> [] then m\<lparr>Title := Label m\<rparr> else m)"

text \<open>
  \<open>UnmarshalJSON\<close> has a pointer receiver: the model returns the receiver as the call
  leaves it, beside the error. The function decodes into \<open>&aux\<close>, the address of a
  pointer: for \<open>null\<close> \<open>json.Unmarshal\<close> sets \<open>aux\<close> to \<open>nil\<close> and returns no error,
  and the read of \<open>aux.MovieID\<close> that follows panics. The decoder of an array calls
  \<open>UnmarshalJSON\<close> for a \<open>null\<close> element as for any other.
\<close>

definition UnmarshalJSON :: "MediaItem \<Rightarrow> raw_item \<Rightarrow> MediaItem \<times> error option" where
  "UnmarshalJSON m data =
     (case data of
        Invalid \<Rightarrow> (m, Some SyntaxError)
      | Null \<Rightarrow> (m, Some NilDereference)
      | Mistyped aux \<Rightarrow> (decode_alias aux m, Some UnmarshalTypeError)
      | Object aux \<Rightarrow> (resolve_title (resolve_runtime (resolve_id aux (decode_alias aux m))), None))"

text \<open>
  The \<open>result\<close> field of a response, as a list call decodes it into
  \<open>struct { Movies []MediaItem }\<close>. \<open>Undecodable\<close> is a result that is rejected
  before any element is stored (invalid or missing JSON, or a value of the wrong shape
  in place of the array). For an array, \<open>json.Unmarshal\<close> appends one element after
  the other to the slice of the target and calls \<open>UnmarshalJSON\<close> on it; the first
  error an element's \<open>UnmarshalJSON\<close> returns ends the decoding, and the slice keeps
  what was stored so far, the failing element included. A panic of an element's
  \<open>UnmarshalJSON\<close> ends the decoding as well, and is not recovered.
\<close>

datatype raw_result = Undecodable | Array "raw_item list"


fun decode_array :: "raw_item list \<Rightarrow> MediaItem list \<Rightarrow> MediaItem list \<times> error option" where
  "decode_array [] acc = (acc, None)"
| "decode_array (d # ds) acc =
     (case UnmarshalJSON zero_item d of
        (m, Some e) \<Rightarrow> (acc @ [m], Some e)
      | (m, None) \<Rightarrow> decode_array ds (acc @ [m]))"

definition Unmarshal_list :: "raw_result \<Rightarrow> MediaItem list \<Rightarrow> MediaItem list \<times> error option" where
  "Unmarshal_list data result =
     (case data of
        Undecodable \<Rightarrow> (result, Some SyntaxError)
      | Array ds \<Rightarrow> decode_array ds [])"

text \<open>
  The client, the envelopes of the protocol and the network. A \<open>network\<close> maps the
  target URL, the basic-auth credentials and the request to what \<open>http.NewRequest\<close>,
  the HTTP round trip and the decoding of the envelope give: no request
  (\<open>http.NewRequest\<close> refuses the URL and returns \<open>nil\<close>), no reply, a body that is
  not an envelope, or the envelope.
\<close>

record Client =
  HostURL :: string
  Username :: string
  Password :: string

record JsonRPCRequest =
  Method :: string
  Params_properties :: "string list"
  Params_ids :: "(string \<times> int) list"
  req_ID :: int

record JsonRPCError =
  Code :: int
  Message :: string

record JsonRPCResponse =
  Result :: raw_result
  Error :: "JsonRPCError option"
  resp_ID :: int

datatype http_reply = NoRequest | NoReply | BadEnvelope | Reply JsonRPCResponse

type_synonym network = "string \<Rightarrow> (string \<times> string) option \<Rightarrow> JsonRPCRequest \<Rightarrow> http_reply"

text \<open>
  \<open>sendRequest\<close> and the list calls. \<open>sendRequest\<close> drops the error of
  \<open>http.NewRequest\<close> and sets a header of the request: without a request this is a
  nil dereference. A list call returns the slice and the error of the Go function as a
  pair; it logs and drops the error of \<open>json.Unmarshal\<close>, and does not return when
  \<open>sendRequest\<close> or the decoding panics. The calls \<open>GetSeasons\<close> and \<open>GetEpisodes\<close>
  repeat the text of \<open>GetMovies\<close> with their own method, parameters and fixture.
\<close>

definition sendRequest :: "network \<Rightarrow> Client \<Rightarrow> JsonRPCRequest \<Rightarrow> error + JsonRPCResponse" where
  "sendRequest net c req =
     (let target = HostURL c @ ''/jsonrpc'';
          target = (if \<not> HasPrefix target ''http'' then ''http://'' @ target else target);
          auth = (if Username c \<noteq> [] then Some (Username c, Password c) else None)
      in case net target auth req of
           NoRequest \<Rightarrow> Inl NilDereference
         | NoReply \<Rightarrow> Inl TransportError
         | BadEnvelope \<Rightarrow> Inl SyntaxError
         | Reply r \<Rightarrow>
             (case Error r of
                Some e \<Rightarrow> Inl (RpcError (Message e) (Code e))
              | None \<Rightarrow> Inr r))"

definition GetMovies :: "network \<Rightarrow> Client \<Rightarrow> MediaItem list \<times> error option" where
  "GetMovies net c =
     (if HostURL c = ''mock'' then (mock_movies, None)
      else
        (let req = \<lparr>Method = ''VideoLibrary.GetMovies'',
                    Params_properties =
                      [''title'', ''year'', ''rating'', ''plot'', ''runtime'', ''thumbnail'', ''art''],
                    Params_ids = [], req_ID = 1\<rparr>
         in case sendRequest net c req of
              Inl err \<Rightarrow> ([], Some err)
            | Inr resp \<Rightarrow>
                (case Unmarshal_list (Result resp) [] of
                   (result, err) \<Rightarrow>
                     if err = Some NilDereference then ([], err) else (result, None))))"

definition GetTVShows :: "network \<Rightarrow> Client \<Rightarrow> MediaItem list \<times> error option" where
  "GetTVShows net c =
     (if HostURL c = ''mock'' then (mock_tvshows, None)
      else
        (let req = \<lparr>Method = ''VideoLibrary.GetTVShows'',
                    Params_properties =
                      [''title'', ''year'', ''rating'', ''plot'', ''thumbnail'', ''episode'', ''art''],
                    Params_ids = [], req_ID = 3\<rparr>
         in case sendRequest net c req of
              Inl err \<Rightarrow> ([], Some err)
            | Inr resp \<Rightarrow>
                (case Unmarshal_list (Result resp) [] of
                   (result, err) \<Rightarrow>
                     if err = Some NilDereference then ([], err) else (result, None))))"

section \<open>Image cache: downloadBestImage\<close>

text \<open>
  \<open>slugify\<close> on ASCII text, where \<open>strings.ToLower\<close> lower-cases byte by byte and
  \<open>unicode.IsLetter\<close> and \<open>unicode.IsDigit\<close> hold of the ASCII letters and digits
  only; the decimal rendering of \<open>%d\<close>; and \<open>url.QueryEscape\<close>, which escapes byte by
  byte.
\<close>

definition is_letter_or_digit :: "char \<Rightarrow> bool" where
  "is_letter_or_digit c =
     (let n = (of_char c :: nat)
      in (65 \<le> n \<and> n \<le> 90) \<or> (97 \<le> n \<and> n \<le> 122) \<or> (48 \<le> n \<and> n \<le> 57))"

definition slugify :: "string \<Rightarrow> string" where
  "slugify s = filter is_letter_or_digit (map lower_byte s)"

definition digit_char :: "nat \<Rightarrow> char" where
  "digit_char d = char_of (48 + d)"

function decimal :: "nat \<Rightarrow> string" where
  "decimal n = (if n < 10 then [digit_char n] else decimal (n div 10) @ [digit_char (n mod 10)])"
  by pat_completeness auto

termination
  by (relation "measure (\<lambda>n. n)") auto

declare decimal.simps [simp del]

definition Itoa :: "int \<Rightarrow> string" where
  "Itoa i = (if i < 0 then CHR ''-'' # decimal (nat (- i)) else decimal (nat i))"

definition hex_char :: "nat \<Rightarrow> char" where
  "hex_char d = (if d < 10 then char_of (48 + d) else char_of (55 + d))"

definition escape_byte :: "char \<Rightarrow> string" where
  "escape_byte c =
     (if is_letter_or_digit c \<or> c \<in> set ''-_.~'' then [c]
      else if c = CHR '' '' then ''+''
      else [CHR ''%'', hex_char ((of_char c :: nat) div 16), hex_char ((of_char c :: nat) mod 16)])"

definition QueryEscape :: "string \<Rightarrow> string" where
  "QueryEscape s = concat (map escape_byte s)"

text \<open>
  What surrounds one call of \<open>downloadBestImage\<close>: \<open>appeared\<close> tells whether another
  caller created the file between the first look and the look under the lock,
  \<open>request_valid\<close> whether \<open>http.NewRequest\<close> accepts the URL, \<open>fetch\<close> what the
  device answers (no answer, or a status), \<open>create_ok\<close> and \<open>copy_ok\<close> whether the
  file can be created and filled. The poster directory is the list of the paths that
  exist; the function returns it updated.
\<close>

datatype fetch_reply = FetchFailed | Status int

record image_env =
  appeared :: "string \<Rightarrow> bool"
  request_valid :: "string \<Rightarrow> bool"
  fetch :: "string \<Rightarrow> (string \<times> string) option \<Rightarrow> fetch_reply"
  create_ok :: "string \<Rightarrow> bool"
  copy_ok :: "string \<Rightarrow> bool"

text \<open>
  The pieces of \<open>downloadBestImage\<close>: the choice of the image reference, the file
  name, the URL of the device's image path and the credentials.
\<close>

definition art_entry :: "MediaItem \<Rightarrow> string \<Rightarrow> string" where
  "art_entry it k = (case map_of (Art it) k of Some v \<Rightarrow> v | None \<Rightarrow> [])"

definition best_image_uri :: "MediaItem \<Rightarrow> string" where
  "best_image_uri it =
     (let imageURI =
            (if art_entry it ''poster'' \<noteq> [] then art_entry it ''poster''
             else if art_entry it ''thumb'' \<noteq> [] then art_entry it ''thumb''
             else [])
      in if imageURI = [] then Thumbnail it else imageURI)"

definition poster_file_name :: "string \<Rightarrow> MediaItem \<Rightarrow> string" where
  "poster_file_name mediaType it =
     mediaType @ ''_'' @ slugify (Title it) @ ''_'' @ Itoa (Year it) @ ''.jpg''"

definition image_target_url :: "Client \<Rightarrow> string \<Rightarrow> string" where
  "image_target_url client imageURI =
     (let targetURL = HostURL client @ ''/image/'' @ QueryEscape imageURI
      in if \<not> HasPrefix targetURL ''http'' then ''http://'' @ targetURL else targetURL)"

definition basic_auth :: "Client \<Rightarrow> (string \<times> string) option" where
  "basic_auth client =
     (if Username client \<noteq> [] then Some (Username client, Password client) else None)"

definition downloadBestImage ::
  "image_env \<Rightarrow> string list \<Rightarrow> Client \<Rightarrow> MediaItem \<Rightarrow> string
     \<Rightarrow> (string \<times> error option) \<times> string list" where
  "downloadBestImage env files client it mediaType =
     (let imageURI = best_image_uri it
      in if imageURI = [] then (([], None), files)
         else if HostURL client = ''mock'' then ((imageURI, None), files)
         else
           (let fileName = poster_file_name mediaType it;
                localPath = ''data/posters/'' @ fileName;
                publicURL = ''/api/posters/'' @ fileName
            in if localPath \<in> set files then ((publicURL, None), files)
               else if appeared env localPath then ((publicURL, None), localPath # files)
               else
                 (let targetURL = image_target_url client imageURI
                  in if \<not> request_valid env targetURL then (([], Some RequestError), files)
                     else
                       (case fetch env targetURL (basic_auth client) of
                          FetchFailed \<Rightarrow> (([], Some TransportError), files)
                        | Status code \<Rightarrow>
                            if code \<noteq> 200 then
                              (if code = 404 then (([], None), files)
                               else (([], Some (ImageStatusError code)), files))
                            else if \<not> create_ok env localPath then (([], Some FileError), files)
                            else if \<not> copy_ok env localPath
                              then (([], Some FileError), localPath # files)
                            else ((publicURL, None), localPath # files)))))"

section \<open>Image cache: concurrent calls of downloadBestImage\<close>

text \<open>
  Several calls of \<open>downloadBestImage\<close> for the same item and kind, each on a
  goroutine of its own. A call is at one of these points: \<open>AtStart\<close>, before the first
  \<open>os.Stat\<close>; \<open>AtRegistry\<close>, before \<open>flightMap.LoadOrStore\<close>; \<open>AtLock mu\<close>, before
  \<open>mu.Lock()\<close> on the mutex it was given; \<open>InLock mu\<close>, holding the mutex, before the
  second \<open>os.Stat\<close> and \<open>http.NewRequest\<close>; \<open>Fetching mu\<close>, before \<open>httpClient.Do\<close>;
  \<open>Copying mu\<close>, after \<open>os.Create\<close> and before \<open>io.Copy\<close>; \<open>Returned r\<close>, with what it
  returned. The shared state is the calls, the mutexes allocated so far (\<open>True\<close> is
  locked), the entry of \<open>flightMap\<close> for this file name, whether the file exists, and
  the number of requests sent to the device. An event of a schedule lets one call take
  one step, or runs the sweep of the ticker goroutine of \<open>init\<close>.
\<close>

datatype caller =
    AtStart
  | AtRegistry
  | AtLock nat
  | InLock nat
  | Fetching nat
  | Copying nat
  | Returned "string \<times> error option"

record flight =
  callers :: "caller list"
  mutexes :: "bool list"
  flightMap :: "nat option"
  present :: bool
  fetches :: nat

datatype event = Run nat | Sweep

text \<open>
  \<open>LoadOrStore\<close> gives the call the mutex of the entry, or stores a fresh one and gives
  that. \<open>unlock_return\<close> is a return under \<open>defer mu.Unlock()\<close>.
\<close>

definition set_caller :: "nat \<Rightarrow> caller \<Rightarrow> flight \<Rightarrow> flight" where
  "set_caller i c s = s\<lparr>callers := (callers s)[i := c]\<rparr>"

definition unlock_return :: "nat \<Rightarrow> nat \<Rightarrow> string \<times> error option \<Rightarrow> flight \<Rightarrow> flight" where
  "unlock_return mu i r s =
     s\<lparr>callers := (callers s)[i := Returned r], mutexes := (mutexes s)[mu := False]\<rparr>"

definition LoadOrStore :: "nat \<Rightarrow> flight \<Rightarrow> flight" where
  "LoadOrStore i s =
     (case flightMap s of
        Some mu \<Rightarrow> set_caller i (AtLock mu) s
      | None \<Rightarrow>
          (set_caller i (AtLock (length (mutexes s))) s)
            \<lparr>mutexes := mutexes s @ [False], flightMap := Some (length (mutexes s))\<rparr>)"

text \<open>
  One step of call \<open>i\<close>. A call at \<open>AtLock\<close> whose mutex is locked stays where it is:
  \<open>mu.Lock()\<close> blocks. A request counts as sent when \<open>httpClient.Do\<close> is called,
  whatever comes back. \<open>os.Create\<close> makes the file exist before \<open>io.Copy\<close> has filled
  it, and a failed copy leaves it there.
\<close>

definition caller_step ::
  "image_env \<Rightarrow> Client \<Rightarrow> MediaItem \<Rightarrow> string \<Rightarrow> nat \<Rightarrow> flight \<Rightarrow> flight" where
  "caller_step env client it mediaType i s =
     (let imageURI = best_image_uri it;
          fileName = poster_file_name mediaType it;
          localPath = ''data/posters/'' @ fileName;
          publicURL = ''/api/posters/'' @ fileName;
          targetURL = image_target_url client imageURI
      in if i \<ge> length (callers s) then s
         else
           (case callers s ! i of
              AtStart \<Rightarrow>
                if imageURI = [] then set_caller i (Returned ([], None)) s
                else if HostURL client = ''mock'' then set_caller i (Returned (imageURI, None)) s
                else if present s then set_caller i (Returned (publicURL, None)) s
                else set_caller i AtRegistry s
            | AtRegistry \<Rightarrow> LoadOrStore i s
            | AtLock mu \<Rightarrow>
                if mutexes s ! mu then s
                else (set_caller i (InLock mu) s)\<lparr>mutexes := (mutexes s)[mu := True]\<rparr>
            | InLock mu \<Rightarrow>
                if present s then unlock_return mu i (publicURL, None) s
                else if \<not> request_valid env targetURL
                  then unlock_return mu i ([], Some RequestError) s
                else set_caller i (Fetching mu) s
            | Fetching mu \<Rightarrow>
                (case fetch env targetURL (basic_auth client) of
                   FetchFailed \<Rightarrow>
                     unlock_return mu i ([], Some TransportError)
                       (s\<lparr>fetches := Suc (fetches s)\<rparr>)
                 | Status code \<Rightarrow>
                     if code \<noteq> 200 then
                       (if code = 404
                        then unlock_return mu i ([], None) (s\<lparr>fetches := Suc (fetches s)\<rparr>)
                        else unlock_return mu i ([], Some (ImageStatusError code))
                               (s\<lparr>fetches := Suc (fetches s)\<rparr>))
                     else if \<not> create_ok env localPath
                       then unlock_return mu i ([], Some FileError)
                              (s\<lparr>fetches := Suc (fetches s)\<rparr>)
                     else set_caller i (Copying mu)
                            (s\<lparr>fetches := Suc (fetches s), present := True\<rparr>))
            | Copying mu \<Rightarrow>
                if \<not> copy_ok env localPath then unlock_return mu i ([], Some FileError) s
                else unlock_return mu i (publicURL, None) s
            | Returned r \<Rightarrow> s))"

text \<open>
  The sweep deletes every key of \<open>flightMap\<close>; a mutex stays with the calls that
  loaded it. \<open>run_callers\<close> runs a schedule from a state.
\<close>

definition sweep :: "flight \<Rightarrow> flight" where
  "sweep s = s\<lparr>flightMap := None\<rparr>"

fun flight_step ::
  "image_env \<Rightarrow> Client \<Rightarrow> MediaItem \<Rightarrow> string \<Rightarrow> event \<Rightarrow> flight \<Rightarrow> flight" where
  "flight_step env client it mediaType (Run i) s = caller_step env client it mediaType i s"
| "flight_step env client it mediaType Sweep s = sweep s"

definition run_callers ::
  "image_env \<Rightarrow> Client \<Rightarrow> MediaItem \<Rightarrow> string \<Rightarrow> event list \<Rightarrow> flight \<Rightarrow> flight" where
  "run_callers env client it mediaType sched s =
     fold (flight_step env client it mediaType) sched s"

text \<open>
  \<open>start_flight n p\<close>: \<open>n\<close> calls, none started, an empty \<open>flightMap\<close>, and the file
  present or not.
\<close>

definition start_flight :: "nat \<Rightarrow> bool \<Rightarrow> flight" where
  "start_flight n p =
     \<lparr>callers = replicate n AtStart, mutexes = [], flightMap = None, present = p, fetches = 0\<rparr>"
















section \<open>Persistence store and handleSyncLibrary\<close>

text \<open>
  The rows of the tables \<open>lists\<close> and \<open>library_cache\<close>, and the store: both tables
  and the poster directory. \<open>db_faults\<close> says which database calls of one request
  fail: the query of \<open>GetAllLists\<close>, the delete of \<open>ClearLibraryCache\<close>, and in
  \<open>AddToLibraryCache\<close> the begin, the prepare, the insert of the item at a given index
  and the commit.
\<close>

record List =
  l_ID :: int
  l_GroupName :: string
  l_Name :: string
  l_ContentType :: string
  l_KodiHost :: string
  l_Username :: string
  l_Password :: string

record CachedItem =
  c_ListID :: int
  c_KodiID :: int
  c_MediaType :: string
  c_Title :: string
  c_Year :: int
  c_Poster :: string
  c_Runtime :: int
  c_EpisodeCount :: int
  c_Rating :: real
  c_Plot :: string

record store =
  tbl_lists :: "List list"
  tbl_library_cache :: "CachedItem list"
  poster_files :: "string list"

record db_faults =
  lists_query_fails :: bool
  clear_fails :: bool
  begin_fails :: bool
  prepare_fails :: bool
  exec_fails_at :: "nat option"
  commit_fails :: bool

text \<open>
  The database operations. \<open>library_cache\<close> is unique on list, remote id and media
  type, so \<open>INSERT OR REPLACE\<close> removes the row with the key of the new one and appends
  the new one. \<open>AddToLibraryCache\<close> runs its inserts in one transaction: any failure
  rolls back and leaves the store as it was.
\<close>

definition GetAllLists :: "db_faults \<Rightarrow> store \<Rightarrow> error + List list" where
  "GetAllLists f s =
     (if lists_query_fails f then Inl DbError else Inr (sort_key l_ID (tbl_lists s)))"

definition in_slice :: "int \<Rightarrow> string \<Rightarrow> CachedItem \<Rightarrow> bool" where
  "in_slice listID mediaType r = (c_ListID r = listID \<and> c_MediaType r = mediaType)"

definition ClearLibraryCache ::
  "db_faults \<Rightarrow> store \<Rightarrow> int \<Rightarrow> string \<Rightarrow> store \<times> error option" where
  "ClearLibraryCache f s listID mediaType =
     (if clear_fails f then (s, Some DbError)
      else (s\<lparr>tbl_library_cache :=
               filter (\<lambda>r. \<not> in_slice listID mediaType r) (tbl_library_cache s)\<rparr>, None))"

definition same_key :: "CachedItem \<Rightarrow> CachedItem \<Rightarrow> bool" where
  "same_key a b =
     (c_ListID a = c_ListID b \<and> c_KodiID a = c_KodiID b \<and> c_MediaType a = c_MediaType b)"

definition insert_or_replace :: "CachedItem \<Rightarrow> CachedItem list \<Rightarrow> CachedItem list" where
  "insert_or_replace i rows = filter (\<lambda>r. \<not> same_key r i) rows @ [i]"

fun exec_inserts ::
  "nat option \<Rightarrow> nat \<Rightarrow> CachedItem list \<Rightarrow> CachedItem list \<Rightarrow> error + CachedItem list" where
  "exec_inserts fault k [] rows = Inr rows"
| "exec_inserts fault k (i # items) rows =
     (if fault = Some k then Inl DbError
      else exec_inserts fault (Suc k) items (insert_or_replace i rows))"

definition AddToLibraryCache ::
  "db_faults \<Rightarrow> store \<Rightarrow> CachedItem list \<Rightarrow> store \<times> error option" where
  "AddToLibraryCache f s items =
     (if begin_fails f then (s, Some DbError)
      else if prepare_fails f then (s, Some DbError)
      else
        (case exec_inserts (exec_fails_at f) 0 items (tbl_library_cache s) of
           Inl err \<Rightarrow> (s, Some err)
         | Inr rows \<Rightarrow>
             if commit_fails f then (s, Some DbError)
             else (s\<lparr>tbl_library_cache := rows\<rparr>, None)))"

text \<open>
  What surrounds one sync request: the \<open>MOCK_KODI\<close> switch, the network, the image
  environment, the database faults, and the order in which the units of work finish.
  A unit downloads the poster and appends its row under the mutex; the model runs the
  units one after the other in the order \<open>env_schedule\<close> gives.
\<close>

record sync_env =
  env_mock_kodi :: bool
  env_net :: network
  env_images :: image_env
  env_faults :: db_faults
  env_schedule :: "MediaItem list \<Rightarrow> MediaItem list"

definition getKodiClient :: "sync_env \<Rightarrow> store \<Rightarrow> int \<Rightarrow> error + Client" where
  "getKodiClient env s listID =
     (case GetAllLists (env_faults env) s of
        Inl err \<Rightarrow> Inl err
      | Inr ls \<Rightarrow>
          (case find (\<lambda>l. l_ID l = listID) ls of
             None \<Rightarrow> Inl (ListNotFound listID)
           | Some l \<Rightarrow>
               Inr \<lparr>HostURL = (if env_mock_kodi env then ''mock'' else l_KodiHost l),
                    Username = l_Username l, Password = l_Password l\<rparr>))"

text \<open>
  The request (\<open>q_list_id\<close> is the result of \<open>ParseInt\<close>, \<open>None\<close> for a failure), the
  response (status and message, status and error text, the success body with its
  count, or none: the handler panicked and the server closed the connection), the two
  units of work, and the handler. \<open>save_cache\<close> is the end of the
  handler, from the choice of \<open>dbType\<close> on.
\<close>

record sync_request =
  q_list_id :: "int option"
  q_content_type :: string
  q_type :: string

datatype http_response =
    HttpError nat string
  | HttpFailure nat error
  | SyncSuccess nat
  | HandlerPanic

definition movie_unit ::
  "image_env \<Rightarrow> Client \<Rightarrow> int \<Rightarrow> MediaItem \<Rightarrow> CachedItem list \<times> string list
     \<Rightarrow> CachedItem list \<times> string list" where
  "movie_unit env client listID m acc =
     (case acc of (itemsToCache, files) \<Rightarrow>
        (case downloadBestImage env files client m ''movie'' of
           ((poster, _), files') \<Rightarrow>
             (itemsToCache @
                [\<lparr>c_ListID = listID, c_KodiID = ID m, c_MediaType = ''movie'', c_Title = Title m,
                  c_Year = Year m, c_Poster = poster, c_Runtime = Runtime m, c_EpisodeCount = 0,
                  c_Rating = Rating m, c_Plot = Plot m\<rparr>],
              files')))"

definition show_unit ::
  "image_env \<Rightarrow> Client \<Rightarrow> int \<Rightarrow> MediaItem \<Rightarrow> CachedItem list \<times> string list
     \<Rightarrow> CachedItem list \<times> string list" where
  "show_unit env client listID v acc =
     (case acc of (itemsToCache, files) \<Rightarrow>
        (case downloadBestImage env files client v ''show'' of
           ((poster, _), files') \<Rightarrow>
             (itemsToCache @
                [\<lparr>c_ListID = listID, c_KodiID = ID v, c_MediaType = ''show'', c_Title = Title v,
                  c_Year = Year v, c_Poster = poster, c_Runtime = Runtime v,
                  c_EpisodeCount = EpisodeCount v, c_Rating = Rating v, c_Plot = Plot v\<rparr>],
              files')))"

definition save_cache ::
  "db_faults \<Rightarrow> store \<Rightarrow> int \<Rightarrow> string \<Rightarrow> CachedItem list \<Rightarrow> http_response \<times> store" where
  "save_cache f s listID syncType itemsToCache =
     (let dbType = (if syncType = ''tv'' then ''show'' else ''movie'');
          s1 = fst (ClearLibraryCache f s listID dbType)
      in case AddToLibraryCache f s1 itemsToCache of
           (s2, Some err) \<Rightarrow> (HttpError 500 ''Failed to save library cache'', s2)
         | (s2, None) \<Rightarrow> (SyncSuccess (length itemsToCache), s2))"

definition handleSyncLibrary ::
  "sync_env \<Rightarrow> store \<Rightarrow> sync_request \<Rightarrow> http_response \<times> store" where
  "handleSyncLibrary env s req =
     (case q_list_id req of
        None \<Rightarrow> (HttpError 400 ''Invalid list_id parameter'', s)
      | Some listID \<Rightarrow>
          (let syncType = (if q_content_type req = [] then q_type req else q_content_type req)
           in case getKodiClient env s listID of
                Inl err \<Rightarrow> (HttpError 500 ''Failed to connect to Kodi'', s)
              | Inr client \<Rightarrow>
                  if syncType = ''movie'' then
                    (case GetMovies (env_net env) client of
                       (movies, Some err) \<Rightarrow>
                         if err = NilDereference then (HandlerPanic, s)
                         else (HttpFailure 500 err, s)
                     | (movies, None) \<Rightarrow>
                         (case fold (movie_unit (env_images env) client listID) (env_schedule env movies)
                                 ([], poster_files s) of
                            (itemsToCache, files) \<Rightarrow>
                              save_cache (env_faults env) (s\<lparr>poster_files := files\<rparr>) listID syncType
                                itemsToCache))
                  else if syncType = ''tv'' then
                    (case GetTVShows (env_net env) client of
                       (shows, Some err) \<Rightarrow>
                         if err = NilDereference then (HandlerPanic, s)
                         else (HttpFailure 500 err, s)
                     | (shows, None) \<Rightarrow>
                         (case fold (show_unit (env_images env) client listID) (env_schedule env shows)
                                 ([], poster_files s) of
                            (itemsToCache, files) \<Rightarrow>
                              save_cache (env_faults env) (s\<lparr>poster_files := files\<rparr>) listID syncType
                                itemsToCache))
                  else save_cache (env_faults env) s listID syncType []))"

section \<open>Schema migrator: migrate\<close>

text \<open>
  The database as \<open>migrate\<close> sees it: tables by name, each with its columns and its
  rows, a row giving a value to each column. \<open>stmt\<close> holds the five shapes of SQL
  statement that \<open>migrate\<close> executes, \<open>exec_stmt\<close> what SQLite does with each: a
  statement that names a table or a column that does not exist fails, as does one that
  renames to or adds a column that exists. Failures of the connection itself are not
  modelled: a statement fails for its text and the schema only.
\<close>

datatype val = IntV int | TextV string | NullV

record table =
  t_columns :: "string list"
  t_rows :: "(string \<times> val) list list"

type_synonym database = "(string \<times> table) list"

datatype sql_error = NoSuchTable string | NoSuchColumn string | DuplicateColumn string

datatype stmt =
    CreateTableIfNotExists string "string list"
  | InsertVersion int
  | UpdateWhere string string val string val
  | RenameColumn string string string
  | AddColumn string string val

definition set_table :: "string \<Rightarrow> table \<Rightarrow> database \<Rightarrow> database" where
  "set_table name t db = map (\<lambda>(n, old). if n = name then (n, t) else (n, old)) db"

definition update_row ::
  "string \<Rightarrow> val \<Rightarrow> string \<Rightarrow> val \<Rightarrow> (string \<times> val) list \<Rightarrow> (string \<times> val) list" where
  "update_row setCol v whereCol w row =
     (if map_of row whereCol = Some w
      then map (\<lambda>(c, x). if c = setCol then (c, v) else (c, x)) row
      else row)"

definition rename_in_row :: "string \<Rightarrow> string \<Rightarrow> (string \<times> val) list \<Rightarrow> (string \<times> val) list" where
  "rename_in_row old new row = map (\<lambda>(c, x). if c = old then (new, x) else (c, x)) row"

definition exec_stmt :: "stmt \<Rightarrow> database \<Rightarrow> sql_error + database" where
  "exec_stmt q db =
     (case q of
        CreateTableIfNotExists name cols \<Rightarrow>
          (case map_of db name of
             Some t \<Rightarrow> Inr db
           | None \<Rightarrow> Inr (db @ [(name, \<lparr>t_columns = cols, t_rows = []\<rparr>)]))
      | InsertVersion v \<Rightarrow>
          (case map_of db ''schema_version'' of
             None \<Rightarrow> Inl (NoSuchTable ''schema_version'')
           | Some t \<Rightarrow>
               Inr (set_table ''schema_version''
                      (t\<lparr>t_rows := t_rows t @ [[(''version'', IntV v)]]\<rparr>) db))
      | UpdateWhere name setCol v whereCol w \<Rightarrow>
          (case map_of db name of
             None \<Rightarrow> Inl (NoSuchTable name)
           | Some t \<Rightarrow>
               if setCol \<notin> set (t_columns t) then Inl (NoSuchColumn setCol)
               else if whereCol \<notin> set (t_columns t) then Inl (NoSuchColumn whereCol)
               else Inr (set_table name
                           (t\<lparr>t_rows := map (update_row setCol v whereCol w) (t_rows t)\<rparr>) db))
      | RenameColumn name old new \<Rightarrow>
          (case map_of db name of
             None \<Rightarrow> Inl (NoSuchTable name)
           | Some t \<Rightarrow>
               if old \<notin> set (t_columns t) then Inl (NoSuchColumn old)
               else if new \<in> set (t_columns t) then Inl (DuplicateColumn new)
               else Inr (set_table name
                           \<lparr>t_columns = map (\<lambda>c. if c = old then new else c) (t_columns t),
                            t_rows = map (rename_in_row old new) (t_rows t)\<rparr> db))
      | AddColumn name col dflt \<Rightarrow>
          (case map_of db name of
             None \<Rightarrow> Inl (NoSuchTable name)
           | Some t \<Rightarrow>
               if col \<in> set (t_columns t) then Inl (DuplicateColumn col)
               else Inr (set_table name
                           \<lparr>t_columns = t_columns t @ [col],
                            t_rows = map (\<lambda>row. row @ [(col, dflt)]) (t_rows t)\<rparr> db)))"

text \<open>
  The two reads of \<open>migrate\<close>: \<open>SELECT COALESCE(MAX(version), 0) FROM schema_version\<close>
  and the probe \<open>SELECT col FROM lists LIMIT 1\<close>, which succeeds when the column exists.
  \<open>MAX\<close> skips the rows whose version is \<open>NULL\<close>, and \<open>COALESCE\<close> gives \<open>0\<close> when no
  row is left; the column holds integers and \<open>NULL\<close> only.
\<close>

definition version_of_row :: "(string \<times> val) list \<Rightarrow> int option" where
  "version_of_row row = (case map_of row ''version'' of Some (IntV v) \<Rightarrow> Some v | _ \<Rightarrow> None)"

definition max_version :: "database \<Rightarrow> sql_error + int" where
  "max_version db =
     (case map_of db ''schema_version'' of
        None \<Rightarrow> Inl (NoSuchTable ''schema_version'')
      | Some t \<Rightarrow>
          (case List.map_filter version_of_row (t_rows t) of
             [] \<Rightarrow> Inr 0
           | v # vs \<Rightarrow> Inr (fold max vs v)))"

definition column_readable :: "database \<Rightarrow> string \<Rightarrow> string \<Rightarrow> bool" where
  "column_readable db name col =
     (case map_of db name of None \<Rightarrow> False | Some t \<Rightarrow> col \<in> set (t_columns t))"

text \<open>
  The errors of a migration (the plain error of migration 1 and the three wrapped
  errors of migration 2) and of \<open>migrate\<close>, whose \<open>MigrationFailed n\<close> is the error
  \<open>migration n failed\<close>. \<open>IndexOutOfRange\<close> is the panic of \<open>migrations[i]\<close> for a
  negative recorded version.
\<close>

datatype step_error =
    Plain sql_error
  | BackfillFailed sql_error
  | RenameFailed sql_error
  | AddColumnFailed sql_error

datatype migrate_error =
    CreateVersionTableFailed sql_error
  | GetVersionFailed sql_error
  | MigrationFailed nat step_error
  | RecordVersionFailed sql_error
  | IndexOutOfRange

text \<open>
  The two migrations, statement by statement in the order of the source. A migration
  works on the transaction's copy of the database.
\<close>

definition lists_v1_columns :: "string list" where
  "lists_v1_columns = [''id'', ''group_name'', ''type'', ''kodi_host'', ''username'', ''password'']"

definition items_columns :: "string list" where
  "items_columns =
     [''id'', ''list_id'', ''kodi_id'', ''media_type'', ''title'', ''year'', ''poster_path'',
      ''runtime'', ''episode_count'', ''season'', ''rating'', ''sort_order'', ''added_at'']"

definition library_cache_columns :: "string list" where
  "library_cache_columns =
     [''id'', ''list_id'', ''kodi_id'', ''media_type'', ''title'', ''year'', ''poster_path'',
      ''runtime'', ''episode_count'', ''rating'', ''plot'']"

fun exec_all :: "stmt list \<Rightarrow> database \<Rightarrow> sql_error + database" where
  "exec_all [] tx = Inr tx"
| "exec_all (q # queries) tx =
     (case exec_stmt q tx of Inl err \<Rightarrow> Inl err | Inr tx' \<Rightarrow> exec_all queries tx')"

definition migration_1 :: "database \<Rightarrow> step_error + database" where
  "migration_1 tx =
     (case exec_all [CreateTableIfNotExists ''lists'' lists_v1_columns,
                     CreateTableIfNotExists ''items'' items_columns,
                     CreateTableIfNotExists ''library_cache'' library_cache_columns] tx of
        Inl err \<Rightarrow> Inl (Plain err)
      | Inr tx' \<Rightarrow> Inr tx')"

definition migration_2 :: "database \<Rightarrow> step_error + database" where
  "migration_2 tx =
     (case exec_stmt (UpdateWhere ''lists'' ''content_type'' (TextV ''tv'') ''name'' (TextV ''tv'')) tx of
        Inl err \<Rightarrow> Inl (BackfillFailed err)
      | Inr tx1 \<Rightarrow>
          (case exec_stmt (RenameColumn ''lists'' ''type'' ''name'') tx1 of
             Inl err \<Rightarrow> Inl (RenameFailed err)
           | Inr tx2 \<Rightarrow>
               (case exec_stmt (AddColumn ''lists'' ''content_type'' (TextV ''movie'')) tx2 of
                  Inl err \<Rightarrow> Inl (AddColumnFailed err)
                | Inr tx3 \<Rightarrow> Inr tx3)))"

definition migrations :: "(database \<Rightarrow> step_error + database) list" where
  "migrations = [migration_1, migration_2]"

text \<open>
  The loop over the migrations from the current version on. Each round runs in its own
  transaction: the migration, then the insert of the new version, then the commit; a
  failure rolls the round back and ends \<open>migrate\<close> with the error. The function
  returns the error, if any, with the database as the last commit left it.
\<close>

function apply_migrations :: "nat \<Rightarrow> database \<Rightarrow> migrate_error option \<times> database" where
  "apply_migrations i db =
     (if i < length migrations then
        (case (migrations ! i) db of
           Inl err \<Rightarrow> (Some (MigrationFailed (i + 1) err), db)
         | Inr tx \<Rightarrow>
             (case exec_stmt (InsertVersion (int (i + 1))) tx of
                Inl err \<Rightarrow> (Some (RecordVersionFailed err), db)
              | Inr tx' \<Rightarrow> apply_migrations (Suc i) tx'))
      else (None, db))"
  by pat_completeness auto

termination
  by (relation "measure (\<lambda>(i, db). length migrations - i)") auto

declare apply_migrations.simps [simp del]

text \<open>
  The detection of a database without a recorded version, and \<open>migrate\<close>.
\<close>

definition detect_legacy :: "database \<Rightarrow> int \<times> database" where
  "detect_legacy db =
     (if map_of db ''lists'' \<noteq> None then
        (let hasType = column_readable db ''lists'' ''type'';
             hasName = column_readable db ''lists'' ''name'';
             version = (if hasName then 2 else if hasType then 1 else 0)
         in (version,
             (case exec_stmt (InsertVersion version) db of Inl err \<Rightarrow> db | Inr db' \<Rightarrow> db')))
      else (0, db))"

definition migrate :: "database \<Rightarrow> migrate_error option \<times> database" where
  "migrate db0 =
     (case exec_stmt (CreateTableIfNotExists ''schema_version'' [''version'']) db0 of
        Inl err \<Rightarrow> (Some (CreateVersionTableFailed err), db0)
      | Inr db \<Rightarrow>
          (case max_version db of
             Inl err \<Rightarrow> (Some (GetVersionFailed err), db)
           | Inr version \<Rightarrow>
               (case (if version = 0 then detect_legacy db else (version, db)) of
                  (version, db) \<Rightarrow>
                    if version < 0 then (Some IndexOutOfRange, db)
                    else apply_migrations (nat version) db)))"

text \<open>
  A database without tables, and one as release 1.0.0 left it: the three tables with
  their first layout, one list of type \<open>tv\<close>, and no version table.
\<close>

definition empty_database :: database where
  "empty_database = []"

definition legacy_database :: database where
  "legacy_database =
     [(''lists'',
        \<lparr>t_columns = lists_v1_columns,
         t_rows = [[(''id'', IntV 1), (''group_name'', TextV ''Living Room''), (''type'', TextV ''tv''),
                    (''kodi_host'', TextV ''kodi.local:8080''), (''username'', TextV []),
                    (''password'', TextV [])]]\<rparr>),
      (''items'', \<lparr>t_columns = items_columns, t_rows = []\<rparr>),
      (''library_cache'', \<lparr>t_columns = library_cache_columns, t_rows = []\<rparr>)]"

section \<open>Example values\<close>


text \<open>
  \<open>unicode.ToLower\<close> on the code points up to U+00FF, and the identity above them,
  as it is on the code points without a lower-case form: the strings of the closed
  theorems have no other code point. The title of \<open>amelie\<close> has an acute accent on
  its first e; \<open>AMELIE\<close> is the same word in upper case, and \<open>evenements\<close> has an
  acute accent on its first and on its second e: ten characters in twelve bytes.
\<close>

definition latin1_lower :: "rune \<Rightarrow> rune" where
  "latin1_lower r =
     (if (65 \<le> r \<and> r \<le> 90) \<or> (192 \<le> r \<and> r \<le> 214) \<or> (216 \<le> r \<and> r \<le> 222)
      then r + 32 else r)"









definition image_env_status :: "fetch_reply \<Rightarrow> image_env" where
  "image_env_status reply =
     \<lparr>appeared = (\<lambda>path. False), request_valid = (\<lambda>url. True),
      fetch = (\<lambda>url auth. reply), create_ok = (\<lambda>path. True), copy_ok = (\<lambda>path. True)\<rparr>"

definition no_faults :: db_faults where
  "no_faults =
     \<lparr>lists_query_fails = False, clear_fails = False, begin_fails = False,
      prepare_fails = False, exec_fails_at = None, commit_fails = False\<rparr>"

definition living_room :: List where
  "living_room =
     \<lparr>l_ID = 1, l_GroupName = ''Living Room'', l_Name = ''movies'', l_ContentType = ''movie'',
      l_KodiHost = ''kodi.local:8080'', l_Username = [], l_Password = []\<rparr>"

definition sync_movies :: sync_request where
  "sync_movies = \<lparr>q_list_id = Some 1, q_content_type = ''movie'', q_type = []\<rparr>"



definition mock_env :: "db_faults \<Rightarrow> sync_env" where
  "mock_env f =
     \<lparr>env_mock_kodi = True, env_net = (\<lambda>target auth req. NoReply),
      env_images = image_env_status FetchFailed, env_faults = f, env_schedule = (\<lambda>ms. ms)\<rparr>"

definition stale_row :: "int \<Rightarrow> int \<Rightarrow> CachedItem" where
  "stale_row listID kodiID =
     \<lparr>c_ListID = listID, c_KodiID = kodiID, c_MediaType = ''movie'', c_Title = ''Stale'',
      c_Year = 2001, c_Poster = [], c_Runtime = 0, c_EpisodeCount = 0, c_Rating = 0, c_Plot = []\<rparr>"

definition bedroom :: List where
  "bedroom =
     \<lparr>l_ID = 2, l_GroupName = ''Bedroom'', l_Name = ''movies'', l_ContentType = ''movie'',
      l_KodiHost = ''kodi.local:8080'', l_Username = [], l_Password = []\<rparr>"

definition stale_store :: "List list \<Rightarrow> store" where
  "stale_store ls =
     \<lparr>tbl_lists = ls, tbl_library_cache = [stale_row 1 97, stale_row 1 98, stale_row 1 99],
      poster_files = []\<rparr>"


section \<open>Properties of the ranking engine\<close>




lemma length_inner_step: "length (inner_step r1 c prev j cur) = length cur"
  by (simp add: inner_step_def Let_def)

lemma length_fold_inner: "length (fold (inner_step r1 c prev) js cur) = length cur"
  by (induction js arbitrary: cur) (simp_all add: length_inner_step)











inductive_cases edits_Nil1E: "edits n [] ys"
inductive_cases edits_Nil2E: "edits n xs []"













lemma ToLower_Nil: "ToLower lower [] = []"
  by (simp add: ToLower_def isASCII_def)

lemma ToLower_ASCII: "isASCII s \<Longrightarrow> ToLower lower s = map lower_byte s"
  by (simp add: ToLower_def)



lemma lower_byte_idem: "lower_byte (lower_byte c) = lower_byte c"
proof -
  define n where "n = (of_char c :: nat)"
  show ?thesis
  proof (cases "65 \<le> n \<and> n \<le> 90")
    case True
    then have "(of_char (char_of (n + 32) :: char) :: nat) = n + 32"
      by (simp add: of_char_of)
    then show ?thesis
      using True unfolding lower_byte_def Let_def n_def[symmetric] by simp
  next
    case False
    then show ?thesis
      by (auto simp: lower_byte_def Let_def n_def)
  qed
qed

text \<open>
  Decoding undoes encoding: the code points of the encoding of a sequence of code points
  are that sequence, and \<open>strings.Map\<close> maps it code point by code point.
\<close>

lemma byte_of_char_of: "n < 256 \<Longrightarrow> (of_char (char_of n :: char) :: nat) = n"
  by (simp add: of_char_of)

lemma lead_mod:
  fixes a :: nat
  shows "a < 32 \<Longrightarrow> (192 + a) mod 32 = a" "a < 16 \<Longrightarrow> (224 + a) mod 16 = a"
    "a < 8 \<Longrightarrow> (240 + a) mod 8 = a" "a < 64 \<Longrightarrow> (128 + a) mod 64 = a"
  using mod_mult_self4[of 32 6 a] mod_mult_self4[of 16 14 a] mod_mult_self4[of 8 30 a]
    mod_mult_self4[of 64 2 a]
  by simp_all

lemma split64: "(n :: nat) = n div 64 * 64 + n mod 64" "n mod 64 < 64"
  by simp_all

lemma div4096: "(n :: nat) div 4096 = n div 64 div 64"
proof -
  have "n div 4096 = n div (64 * 64)"
    by simp
  also have "\<dots> = n div 64 div 64"
    by (simp only: div_mult2_eq)
  finally show ?thesis .
qed

lemma div262144: "(n :: nat) div 262144 = n div 64 div 64 div 64"
proof -
  have "n div 262144 = n div (64 * (64 * 64))"
    by simp
  also have "\<dots> = n div 64 div 64 div 64"
    by (simp only: div_mult2_eq)
  finally show ?thesis .
qed

lemma Decode_Encode_3:
  assumes "2047 < n" "n \<le> 65535" "\<not> (55296 \<le> n \<and> n \<le> 57343)"
  shows "DecodeRuneInString (EncodeRune (int n) @ s) = (int n, 3)"
proof -
  define q where "q = n div 64"
  define c where "c = n mod 64"
  define a where "a = q div 64"
  define b where "b = q mod 64"
  have n: "n = q * 64 + c" and c: "c < 64"
    unfolding q_def c_def by simp_all
  have q: "q = a * 64 + b" and b: "b < 64"
    unfolding a_def b_def by simp_all
  have a: "a < 16"
    using assms(2) n q by linarith
  have lo: "a = 0 \<Longrightarrow> 32 \<le> b"
    using assms(1) n q c by linarith
  have hi: "a = 13 \<Longrightarrow> b < 32"
    using assms(3) n q b c by linarith
  have e: "EncodeRune (int n) = [char_of (224 + a), char_of (128 + b), char_of (128 + c)]"
    using assms
    by (auto simp: EncodeRune_def Let_def nat_div_distrib nat_mod_distrib div4096
        a_def b_def c_def q_def)
  have c0: "(of_char (char_of (224 + a) :: char) :: nat) = 224 + a"
    and c1: "(of_char (char_of (128 + b) :: char) :: nat) = 128 + b"
    and c2: "(of_char (char_of (128 + c) :: char) :: nat) = 128 + c"
    using a b c by (simp_all add: byte_of_char_of)
  have v: "int (a * 4096 + b * 64 + c) = int n"
    using n q by simp
  have "DecodeRuneInString ([char_of (224 + a), char_of (128 + b), char_of (128 + c)] @ s)
          = (int (a * 4096 + b * 64 + c), 3)"
    using a b c lo hi
    by (auto simp: DecodeRuneInString_def Let_def c0 c1 c2 lead_mod)
  then show ?thesis
    unfolding e v .
qed

lemma Decode_Encode_1:
  assumes "n \<le> 127"
  shows "DecodeRuneInString (EncodeRune (int n) @ s) = (int n, 1)"
  using assms by (simp add: EncodeRune_def DecodeRuneInString_def Let_def byte_of_char_of)

lemma Decode_Encode_2:
  assumes "127 < n" "n \<le> 2047"
  shows "DecodeRuneInString (EncodeRune (int n) @ s) = (int n, 2)"
proof -
  define a where "a = n div 64"
  define b where "b = n mod 64"
  have n: "n = a * 64 + b" and b: "b < 64"
    unfolding a_def b_def by simp_all
  have a: "2 \<le> a" "a < 32"
    using assms n b by linarith+
  have e: "EncodeRune (int n) = [char_of (192 + a), char_of (128 + b)]"
    using assms by (simp add: EncodeRune_def nat_div_distrib nat_mod_distrib a_def b_def)
  have c0: "(of_char (char_of (192 + a) :: char) :: nat) = 192 + a"
    and c1: "(of_char (char_of (128 + b) :: char) :: nat) = 128 + b"
    using a b by (simp_all add: byte_of_char_of)
  have v: "int (a * 64 + b) = int n"
    using n by simp
  have "DecodeRuneInString ([char_of (192 + a), char_of (128 + b)] @ s) = (int (a * 64 + b), 2)"
    using a b by (simp add: DecodeRuneInString_def Let_def c0 c1 lead_mod)
  then show ?thesis
    unfolding e v .
qed

lemma Decode_Encode_4:
  assumes "65535 < n" "n \<le> 1114111"
  shows "DecodeRuneInString (EncodeRune (int n) @ s) = (int n, 4)"
proof -
  define q where "q = n div 64"
  define d where "d = n mod 64"
  define p where "p = q div 64"
  define c where "c = q mod 64"
  define a where "a = p div 64"
  define b where "b = p mod 64"
  have n: "n = q * 64 + d" and d: "d < 64"
    unfolding q_def d_def by simp_all
  have q: "q = p * 64 + c" and c: "c < 64"
    unfolding p_def c_def by simp_all
  have p: "p = a * 64 + b" and b: "b < 64"
    unfolding a_def b_def by simp_all
  have a: "a < 5"
    using assms(2) n q p by linarith
  have lo: "a = 0 \<Longrightarrow> 16 \<le> b"
    using assms(1) n q p c d by linarith
  have hi: "a = 4 \<Longrightarrow> b < 16"
    using assms(2) n q p by linarith
  have e: "EncodeRune (int n)
      = [char_of (240 + a), char_of (128 + b), char_of (128 + c), char_of (128 + d)]"
    using assms
    by (simp add: EncodeRune_def Let_def nat_div_distrib nat_mod_distrib div4096 div262144
        a_def b_def c_def d_def p_def q_def)
  have c0: "(of_char (char_of (240 + a) :: char) :: nat) = 240 + a"
    and c1: "(of_char (char_of (128 + b) :: char) :: nat) = 128 + b"
    and c2: "(of_char (char_of (128 + c) :: char) :: nat) = 128 + c"
    and c3: "(of_char (char_of (128 + d) :: char) :: nat) = 128 + d"
    using a b c d by (simp_all add: byte_of_char_of)
  have v: "int (a * 262144 + b * 4096 + c * 64 + d) = int n"
    using n q p by simp
  have "DecodeRuneInString
          ([char_of (240 + a), char_of (128 + b), char_of (128 + c), char_of (128 + d)] @ s)
          = (int (a * 262144 + b * 4096 + c * 64 + d), 4)"
    using a b c d lo hi
    by (auto simp: DecodeRuneInString_def Let_def c0 c1 c2 c3 lead_mod)
  then show ?thesis
    unfolding e v .
qed

lemma length_EncodeRune: "0 < length (EncodeRune r)"
  by (simp add: EncodeRune_def Let_def)

lemma Decode_Encode:
  assumes "valid_rune r"
  shows "DecodeRuneInString (EncodeRune r @ s) = (r, length (EncodeRune r))"
proof -
  define n where "n = nat r"
  have r: "r = int n" and n: "n \<le> 1114111" "\<not> (55296 \<le> n \<and> n \<le> 57343)"
    using assms unfolding valid_rune_def n_def by auto
  consider "n \<le> 127" | "127 < n" "n \<le> 2047" | "2047 < n" "n \<le> 65535" | "65535 < n"
    by linarith
  then show ?thesis
  proof cases
    case 1
    then show ?thesis
      unfolding r using Decode_Encode_1[of n s] by (simp add: EncodeRune_def)
  next
    case 2
    then show ?thesis
      unfolding r using Decode_Encode_2[of n s] by (simp add: EncodeRune_def)
  next
    case 3
    then show ?thesis
      unfolding r using Decode_Encode_3[of n s] n by (auto simp: EncodeRune_def Let_def)
  next
    case 4
    then show ?thesis
      unfolding r using Decode_Encode_4[of n s] n by (auto simp: EncodeRune_def Let_def)
  qed
qed

lemma runes_Encode:
  assumes "valid_rune r"
  shows "runes (EncodeRune r @ s) = r # runes s"
  using Decode_Encode[OF assms, of s] length_EncodeRune[of r]
  by (subst runes.simps) (auto simp: EncodeRune_def Let_def)


lemma runes_append_Encode:
  "list_all valid_rune rs \<Longrightarrow> runes (concat (map EncodeRune rs) @ s) = rs @ runes s"
  by (induction rs) (simp_all add: runes_Encode)


lemma isASCII_lower: "isASCII s \<Longrightarrow> isASCII (map lower_byte s)"
  by (induction s) (auto simp: isASCII_def lower_byte_def Let_def of_char_of)

lemma ToLower_idem_ASCII: "isASCII s \<Longrightarrow> ToLower lower (ToLower lower s) = ToLower lower s"
  by (simp add: ToLower_ASCII isASCII_lower lower_byte_idem)

lemma HasPrefix_Nil: "HasPrefix s []"
  by (simp add: HasPrefix_def)

lemma fold_match_item_acc:
  "fold (match_item lower q) items acc = acc @ fold (match_item lower q) items []"
proof (induction items arbitrary: acc)
  case Nil
  then show ?case by simp
next
  case (Cons it items)
  have one: "match_item lower q it acc = acc @ match_item lower q it []"
    by (simp add: match_item_def Let_def)
  show ?case
    using Cons.IH[of "match_item lower q it acc"] Cons.IH[of "match_item lower q it []"] one by simp
qed

lemma fold_match_item_Cons:
  "fold (match_item lower q) (it # items) [] = match_item lower q it [] @ fold (match_item lower q) items []"
  using fold_match_item_acc[of lower q items "match_item lower q it []"] by simp

lemma match_item_cases:
  "match_item lower q it [] = [] \<or> (\<exists>s. match_item lower q it [] = [(it, s)])"
  by (simp add: match_item_def Let_def)

lemma results_items:
  "map fst (fold (match_item lower q) items []) = filter (\<lambda>it. match_item lower q it [] \<noteq> []) items"
proof (induction items)
  case Nil
  then show ?case by simp
next
  case (Cons it items)
  have "map fst (fold (match_item lower q) (it # items) []) =
          map fst (match_item lower q it []) @ map fst (fold (match_item lower q) items [])"
    by (simp only: fold_match_item_Cons map_append)
  then show ?case
    using Cons match_item_cases[of lower q it] by auto
qed

lemma results_scores:
  "(it, s) \<in> set (fold (match_item lower q) items []) \<Longrightarrow> match_item lower q it [] = [(it, s)]"
proof (induction items)
  case Nil
  then show ?case by simp
next
  case (Cons x items)
  have "set (fold (match_item lower q) (x # items) []) =
          set (match_item lower q x []) \<union> set (fold (match_item lower q) items [])"
    by (simp only: fold_match_item_Cons set_append)
  then show ?case
    using Cons match_item_cases[of lower q x] by auto
qed

lemma contract_length: "sort_Slice_contract srt \<Longrightarrow> length (srt rs) = length rs"
  unfolding sort_Slice_contract_def by (metis size_mset)

lemma contract_sorted: "sort_Slice_contract srt \<Longrightarrow> sorted (map snd (srt rs))"
  unfolding sort_Slice_contract_def by (simp add: sorted_map not_less)

lemma contract_mset: "sort_Slice_contract srt \<Longrightarrow> mset (srt rs) = mset rs"
  unfolding sort_Slice_contract_def by simp

lemma sort_key_contract: "sort_Slice_contract (sort_key snd)"
  unfolding sort_Slice_contract_def
  using sorted_sort_key[of snd] by (auto simp: sorted_map not_less)

lemma FuzzySearch_unfold:
  "FuzzySearch lower srt items query =
     take 20 (map fst (srt (fold (match_item lower (ToLower lower query)) items [])))"
  by (simp add: FuzzySearch_def Let_def)

lemma empty_query_results:
  "fold (match_item lower []) items [] = map (\<lambda>it. (it, - 50)) items"
proof (induction items)
  case Nil
  then show ?case by simp
next
  case (Cons it items)
  have "match_item lower [] it [] = [(it, - 50)]"
    by (simp add: match_item_def HasPrefix_Nil)
  then show ?case
    using Cons by (simp only: fold_match_item_Cons) simp
qed

text \<open>
  Claim C10. For the empty query every item is a prefix match with score \<open>-50\<close>, so
  none is left out by the edit-distance filter, and \<open>FuzzySearch\<close> returns
  \<open>min (length items) 20\<close> results, all of them items of the input.
\<close>

theorem FuzzySearch_empty_query:
  assumes "sort_Slice_contract srt"
  shows "fold (match_item lower (ToLower lower [])) items [] = map (\<lambda>it. (it, - 50)) items
       \<and> length (FuzzySearch lower srt items []) = min (length items) 20
       \<and> mset (FuzzySearch lower srt items []) \<subseteq># mset items
       \<and> (length items \<le> 20 \<longrightarrow> mset (FuzzySearch lower srt items []) = mset items)"
proof -
  let ?rs = "map (\<lambda>it. (it, - 50 :: int)) items"
  have m: "mset (map fst (srt ?rs)) = mset items"
    using contract_mset[OF assms, of ?rs]
    by (metis (no_types, lifting) mset_map map_map comp_def fst_conv map_idI)
  have sub: "mset (take 20 (map fst (srt ?rs))) \<subseteq># mset (map fst (srt ?rs))"
    by (metis append_take_drop_id mset_append mset_subset_eq_add_left)
  show ?thesis
    using m sub contract_length[OF assms, of ?rs]
    by (auto simp: FuzzySearch_unfold ToLower_Nil empty_query_results)
qed

lemma reversing_sort_contract: "sort_Slice_contract reversing_sort"
  unfolding sort_Slice_contract_def reversing_sort_def
  using sorted_sort_key[of snd] by (auto simp: sorted_map not_less)


lemma FuzzySearch_subset:
  assumes "sort_Slice_contract srt"
  shows "mset (FuzzySearch lower srt items query)
           \<subseteq># mset (filter (\<lambda>it. match_item lower (ToLower lower query) it [] \<noteq> []) items)"
proof -
  let ?rs = "fold (match_item lower (ToLower lower query)) items []"
  have "mset (map fst (srt ?rs)) = mset (map fst ?rs)"
    using contract_mset[OF assms, of ?rs] by (metis mset_map)
  moreover have "mset (take 20 (map fst (srt ?rs))) \<subseteq># mset (map fst (srt ?rs))"
    by (metis append_take_drop_id mset_append mset_subset_eq_add_left)
  ultimately show ?thesis
    by (simp add: FuzzySearch_unfold results_items)
qed






text \<open>
  Claim C5, as amended. With a sort that meets the contract of \<open>sort.Slice\<close>, the
  output of \<open>FuzzySearch\<close> has at most 20 entries and is the first 20 of an
  arrangement of the admitted items in ascending order of score; every admitted
  occurrence of an item appears at most once, so the output is duplicate-free when the
  items are. The order among items of equal score is the one the sort leaves.
\<close>

theorem FuzzySearch_sorted_capped:
  assumes "sort_Slice_contract srt"
  shows "length (FuzzySearch lower srt items query) \<le> 20
     \<and> (\<exists>rs. mset rs = mset (fold (match_item lower (ToLower lower query)) items [])
            \<and> sorted (map snd rs)
            \<and> FuzzySearch lower srt items query = take 20 (map fst rs))
     \<and> mset (FuzzySearch lower srt items query)
           \<subseteq># mset (filter (\<lambda>it. match_item lower (ToLower lower query) it [] \<noteq> []) items)
     \<and> (distinct items \<longrightarrow> distinct (FuzzySearch lower srt items query))"
proof -
  let ?res = "fold (match_item lower (ToLower lower query)) items []"
  have len: "length (FuzzySearch lower srt items query) \<le> 20"
    by (simp add: FuzzySearch_unfold)
  have ex: "\<exists>rs. mset rs = mset ?res \<and> sorted (map snd rs)
            \<and> FuzzySearch lower srt items query = take 20 (map fst rs)"
  proof (intro exI[of _ "srt ?res"] conjI)
    show "mset (srt ?res) = mset ?res" by (rule contract_mset[OF assms])
    show "sorted (map snd (srt ?res))" by (rule contract_sorted[OF assms])
    show "FuzzySearch lower srt items query = take 20 (map fst (srt ?res))"
      by (rule FuzzySearch_unfold)
  qed
  have sub: "mset (FuzzySearch lower srt items query)
           \<subseteq># mset (filter (\<lambda>it. match_item lower (ToLower lower query) it [] \<noteq> []) items)"
    by (rule FuzzySearch_subset[OF assms])
  have dist: "distinct (FuzzySearch lower srt items query)" if "distinct items"
  proof -
    have "mset (map fst (srt ?res)) = mset (map fst ?res)"
      using contract_mset[OF assms, of ?res] by (metis mset_map)
    then have "distinct (map fst (srt ?res)) = distinct (map fst ?res)"
      by (rule mset_eq_imp_distinct_iff)
    moreover have "distinct (map fst ?res)"
      using that by (simp only: results_items distinct_filter)
    ultimately have "distinct (take 20 (map fst (srt ?res)))"
      by (simp only: distinct_take)
    then show ?thesis
      by (simp only: FuzzySearch_unfold)
  qed
  from len ex sub dist show ?thesis
    by (intro conjI impI)
qed

theorem FuzzySearch_sorted_capped_witness:
  "sort_Slice_contract (sort_key snd :: (MediaItem \<times> int) list \<Rightarrow> (MediaItem \<times> int) list)
   \<and> distinct mock_movies
   \<and> length (FuzzySearch latin1_lower (sort_key snd) mock_movies ''e'') \<le> 20
   \<and> distinct (FuzzySearch latin1_lower (sort_key snd) mock_movies ''e'')
   \<and> mset (FuzzySearch latin1_lower (sort_key snd) mock_movies ''e'')
         \<subseteq># mset (filter (\<lambda>it. match_item latin1_lower (ToLower latin1_lower ''e'') it [] \<noteq> []) mock_movies)"
proof -
  have c: "sort_Slice_contract (sort_key snd :: (MediaItem \<times> int) list \<Rightarrow> (MediaItem \<times> int) list)"
    by (rule sort_key_contract)
  have d: "distinct mock_movies"
    by (simp add: mock_movies_def)
  note T = FuzzySearch_sorted_capped[OF c, where lower = latin1_lower and items = mock_movies
      and query = "''e''"]
  have t1: "length (FuzzySearch latin1_lower (sort_key snd) mock_movies ''e'') \<le> 20"
    using T by (rule conjunct1)
  have t3: "mset (FuzzySearch latin1_lower (sort_key snd) mock_movies ''e'')
         \<subseteq># mset (filter (\<lambda>it. match_item latin1_lower (ToLower latin1_lower ''e'') it [] \<noteq> []) mock_movies)"
    using T[THEN conjunct2, THEN conjunct2] by (rule conjunct1)
  have t4: "distinct (FuzzySearch latin1_lower (sort_key snd) mock_movies ''e'')"
    using T[THEN conjunct2, THEN conjunct2, THEN conjunct2] d by (rule mp)
  from c d t1 t4 t3 show ?thesis
    by (intro conjI)
qed

text \<open>
  Claim C5 as stated fails: the contract of \<open>sort.Slice\<close> does not keep items of
  equal score in encounter order. Twelve items of score \<open>0\<close> met in the order
  \<open>0, \<dots>, 11\<close> come out in the order \<open>11, \<dots>, 0\<close>.
\<close>

theorem FuzzySearch_ties_counterexample:
  "sort_Slice_contract (reversing_sort :: (MediaItem \<times> int) list \<Rightarrow> (MediaItem \<times> int) list)
   \<and> map ID tied_items = [0, 1, 2, 3, 4, 5, 6, 7, 8, 9, 10, 11, 12]
   \<and> map snd (fold (match_item latin1_lower (ToLower latin1_lower ''a'')) tied_items [])
        = [0, 0, 0, 0, 0, 0, 0, 0, 0, 0, 0, 0, - 50]
   \<and> map ID (FuzzySearch latin1_lower reversing_sort tied_items ''a'')
        = [12, 11, 10, 9, 8, 7, 6, 5, 4, 3, 2, 1, 0]"
proof -
  have c: "sort_Slice_contract (reversing_sort :: (MediaItem \<times> int) list \<Rightarrow> (MediaItem \<times> int) list)"
    by (rule reversing_sort_contract)
  have i: "map ID tied_items = [0, 1, 2, 3, 4, 5, 6, 7, 8, 9, 10, 11, 12]"
    by code_simp
  have s: "map snd (fold (match_item latin1_lower (ToLower latin1_lower ''a'')) tied_items [])
        = [0, 0, 0, 0, 0, 0, 0, 0, 0, 0, 0, 0, - 50]"
    by code_simp
  have f: "map ID (FuzzySearch latin1_lower reversing_sort tied_items ''a'')
        = [12, 11, 10, 9, 8, 7, 6, 5, 4, 3, 2, 1, 0]"
    by code_simp
  from c i s f show ?thesis
    by (intro conjI)
qed

theorem FuzzySearch_empty_query_witness:
  "sort_Slice_contract (sort_key snd :: (MediaItem \<times> int) list \<Rightarrow> (MediaItem \<times> int) list)
   \<and> length mock_movies \<le> 20
   \<and> length (FuzzySearch latin1_lower (sort_key snd) mock_movies []) = 2
   \<and> mset (FuzzySearch latin1_lower (sort_key snd) mock_movies []) = mset mock_movies"
proof -
  have c: "sort_Slice_contract (sort_key snd :: (MediaItem \<times> int) list \<Rightarrow> (MediaItem \<times> int) list)"
    by (rule sort_key_contract)
  have l: "length mock_movies = 2"
    by (simp add: mock_movies_def)
  show ?thesis
    using FuzzySearch_empty_query[OF c, where lower = latin1_lower and items = mock_movies] c l
    by simp
qed

section \<open>Properties of the protocol client\<close>











lemma decode_array_acc: "fst (decode_array ds acc) = acc @ fst (decode_array ds [])"
proof (induction ds arbitrary: acc)
  case Nil
  then show ?case by simp
next
  case (Cons d ds)
  obtain m e where u: "UnmarshalJSON zero_item d = (m, e)"
    by (cases "UnmarshalJSON zero_item d")
  show ?case
  proof (cases e)
    case None
    then show ?thesis
      using u Cons.IH[of "acc @ [m]"] Cons.IH[of "[m]"] by simp
  next
    case (Some x)
    then show ?thesis
      using u by simp
  qed
qed








section \<open>Properties of the image cache and the synchronizer\<close>

lemma movie_unit_append:
  "movie_unit env client listID m (acc, files) =
     (acc @ [\<lparr>c_ListID = listID, c_KodiID = ID m, c_MediaType = ''movie'', c_Title = Title m,
               c_Year = Year m, c_Poster = fst (fst (downloadBestImage env files client m ''movie'')),
               c_Runtime = Runtime m, c_EpisodeCount = 0, c_Rating = Rating m, c_Plot = Plot m\<rparr>],
      snd (downloadBestImage env files client m ''movie''))"
  by (simp add: movie_unit_def split: prod.splits)

lemma show_unit_append:
  "show_unit env client listID m (acc, files) =
     (acc @ [\<lparr>c_ListID = listID, c_KodiID = ID m, c_MediaType = ''show'', c_Title = Title m,
               c_Year = Year m, c_Poster = fst (fst (downloadBestImage env files client m ''show'')),
               c_Runtime = Runtime m, c_EpisodeCount = EpisodeCount m, c_Rating = Rating m,
               c_Plot = Plot m\<rparr>],
      snd (downloadBestImage env files client m ''show''))"
  by (simp add: show_unit_def split: prod.splits)

lemma fold_movie_unit_ids:
  "map c_KodiID (fst (fold (movie_unit env client listID) ms (acc, files))) = map c_KodiID acc @ map ID ms"
proof (induction ms arbitrary: acc files)
  case Nil
  then show ?case by simp
next
  case (Cons m ms)
  show ?case
    by (simp only: fold_simps movie_unit_append Cons.IH) simp
qed

lemma fold_show_unit_ids:
  "map c_KodiID (fst (fold (show_unit env client listID) ms (acc, files))) = map c_KodiID acc @ map ID ms"
proof (induction ms arbitrary: acc files)
  case Nil
  then show ?case by simp
next
  case (Cons m ms)
  show ?case
    by (simp only: fold_simps show_unit_append Cons.IH) simp
qed

lemma fold_movie_unit_slice:
  "\<forall>r \<in> set acc. in_slice listID ''movie'' r \<Longrightarrow>
   \<forall>r \<in> set (fst (fold (movie_unit env client listID) ms (acc, files))). in_slice listID ''movie'' r"
proof (induction ms arbitrary: acc files)
  case Nil
  then show ?case by simp
next
  case (Cons m ms)
  show ?case
    unfolding fold_simps movie_unit_append
    by (rule Cons.IH) (use Cons.prems in \<open>auto simp: in_slice_def\<close>)
qed

lemma fold_show_unit_slice:
  "\<forall>r \<in> set acc. in_slice listID ''show'' r \<Longrightarrow>
   \<forall>r \<in> set (fst (fold (show_unit env client listID) ms (acc, files))). in_slice listID ''show'' r"
proof (induction ms arbitrary: acc files)
  case Nil
  then show ?case by simp
next
  case (Cons m ms)
  show ?case
    unfolding fold_simps show_unit_append
    by (rule Cons.IH) (use Cons.prems in \<open>auto simp: in_slice_def\<close>)
qed






lemma exec_inserts_result:
  "exec_inserts fault k items rows =
     (if \<exists>j. fault = Some j \<and> k \<le> j \<and> j < k + length items then Inl DbError
      else Inr (fold insert_or_replace items rows))"
proof (induction items arbitrary: k rows)
  case Nil
  then show ?case by simp
next
  case (Cons i items)
  show ?case
  proof (cases "fault = Some k")
    case True
    then show ?thesis by auto
  next
    case False
    then show ?thesis
    proof (cases fault)
      case None
      then show ?thesis
        using Cons.IH[of "Suc k" "insert_or_replace i rows"] by simp
    next
      case (Some j)
      then have "j \<noteq> k" using False by simp
      then have "(Suc k \<le> j \<and> j < Suc k + length items) = (k \<le> j \<and> j < k + length (i # items))"
        by auto
      then show ?thesis
        using Some False Cons.IH[of "Suc k" "insert_or_replace i rows"] by simp
    qed
  qed
qed

lemma AddToLibraryCache_result:
  "AddToLibraryCache f s items = (s, Some DbError)
   \<or> AddToLibraryCache f s items =
       (s\<lparr>tbl_library_cache := fold insert_or_replace items (tbl_library_cache s)\<rparr>, None)"
  by (simp add: AddToLibraryCache_def exec_inserts_result)

lemma AddToLibraryCache_ok:
  "\<not> begin_fails f \<Longrightarrow> \<not> prepare_fails f \<Longrightarrow> exec_fails_at f = None \<Longrightarrow> \<not> commit_fails f \<Longrightarrow>
   AddToLibraryCache f s items =
     (s\<lparr>tbl_library_cache := fold insert_or_replace items (tbl_library_cache s)\<rparr>, None)"
  by (simp add: AddToLibraryCache_def exec_inserts_result)

lemma fold_insert_outside:
  "\<forall>i \<in> set items. in_slice listID mt i \<Longrightarrow>
   filter (\<lambda>r. \<not> in_slice listID mt r) (fold insert_or_replace items rows)
     = filter (\<lambda>r. \<not> in_slice listID mt r) rows"
proof (induction items arbitrary: rows)
  case Nil
  then show ?case by simp
next
  case (Cons i items)
  have i: "in_slice listID mt i" using Cons.prems by simp
  have "filter (\<lambda>r. \<not> in_slice listID mt r) (insert_or_replace i rows)
          = filter (\<lambda>r. \<not> in_slice listID mt r) rows"
    using i
    by (auto simp: insert_or_replace_def same_key_def in_slice_def intro!: filter_cong)
  then show ?case
    using Cons by simp
qed

lemma fold_insert_inside:
  "\<forall>i \<in> set items. in_slice listID mt i \<Longrightarrow> distinct (map c_KodiID items) \<Longrightarrow>
   c_KodiID ` set (filter (in_slice listID mt) rows) \<inter> c_KodiID ` set items = {} \<Longrightarrow>
   filter (in_slice listID mt) (fold insert_or_replace items rows)
     = filter (in_slice listID mt) rows @ items"
proof (induction items arbitrary: rows)
  case Nil
  then show ?case by simp
next
  case (Cons i items)
  have i: "in_slice listID mt i" using Cons.prems(1) by simp
  have keep_rows: "filter (in_slice listID mt) (filter (\<lambda>r. \<not> same_key r i) rows)
          = filter (in_slice listID mt) rows"
  proof -
    have "\<not> same_key r i" if "r \<in> set rows" "in_slice listID mt r" for r
    proof
      assume "same_key r i"
      then have "c_KodiID r = c_KodiID i"
        by (simp add: same_key_def)
      moreover have "c_KodiID r \<in> c_KodiID ` set (filter (in_slice listID mt) rows)"
        using that by simp
      moreover have "c_KodiID i \<in> c_KodiID ` set (i # items)"
        by simp
      ultimately show False
        using Cons.prems(3) by (metis disjoint_iff)
    qed
    then show ?thesis
      by (auto simp: filter_filter intro!: filter_cong)
  qed
  have one: "filter (in_slice listID mt) (insert_or_replace i rows)
          = filter (in_slice listID mt) rows @ [i]"
    unfolding insert_or_replace_def filter_append keep_rows using i by simp
  have disj: "c_KodiID ` set (filter (in_slice listID mt) (insert_or_replace i rows))
                \<inter> c_KodiID ` set items = {}"
    using Cons.prems(2,3) unfolding one by auto
  have "filter (in_slice listID mt) (fold insert_or_replace items (insert_or_replace i rows))
          = filter (in_slice listID mt) (insert_or_replace i rows) @ items"
    using Cons.IH[OF _ _ disj] Cons.prems(1,2) by simp
  then show ?case
    by (simp add: one)
qed

lemma ClearLibraryCache_ok:
  "\<not> clear_fails f \<Longrightarrow>
   fst (ClearLibraryCache f s listID mt) =
     s\<lparr>tbl_library_cache := filter (\<lambda>r. \<not> in_slice listID mt r) (tbl_library_cache s)\<rparr>"
  by (simp add: ClearLibraryCache_def)

lemma ClearLibraryCache_failed:
  "clear_fails f \<Longrightarrow> fst (ClearLibraryCache f s listID mt) = s"
  by (simp add: ClearLibraryCache_def)

lemma save_cache_result:
  assumes slice: "\<forall>i \<in> set items. in_slice listID dbType i"
    and dbType: "dbType = (if syncType = ''tv'' then ''show'' else ''movie'')"
  shows "(fst (save_cache f s listID syncType items) = SyncSuccess (length items)
          \<and> filter (\<lambda>r. \<not> in_slice listID dbType r)
                (tbl_library_cache (snd (save_cache f s listID syncType items)))
              = filter (\<lambda>r. \<not> in_slice listID dbType r) (tbl_library_cache s)
          \<and> (\<not> clear_fails f \<and> distinct (map c_KodiID items) \<longrightarrow>
                filter (in_slice listID dbType)
                  (tbl_library_cache (snd (save_cache f s listID syncType items))) = items))
       \<or> (save_cache f s listID syncType items =
            (HttpError 500 ''Failed to save library cache'',
             if clear_fails f then s
             else s\<lparr>tbl_library_cache :=
                     filter (\<lambda>r. \<not> in_slice listID dbType r) (tbl_library_cache s)\<rparr>))"
proof -
  define s1 where "s1 = fst (ClearLibraryCache f s listID dbType)"
  have s1: "s1 = (if clear_fails f then s
                  else s\<lparr>tbl_library_cache :=
                          filter (\<lambda>r. \<not> in_slice listID dbType r) (tbl_library_cache s)\<rparr>)"
    unfolding s1_def by (simp add: ClearLibraryCache_def)
  have sc: "save_cache f s listID syncType items =
     (case AddToLibraryCache f s1 items of
        (s2, Some err) \<Rightarrow> (HttpError 500 ''Failed to save library cache'', s2)
      | (s2, None) \<Rightarrow> (SyncSuccess (length items), s2))"
    unfolding save_cache_def Let_def s1_def dbType by simp
  have out1: "filter (\<lambda>r. \<not> in_slice listID dbType r) (tbl_library_cache s1)
          = filter (\<lambda>r. \<not> in_slice listID dbType r) (tbl_library_cache s)"
    unfolding s1 by simp
  consider (failed) "AddToLibraryCache f s1 items = (s1, Some DbError)"
    | (ok) "AddToLibraryCache f s1 items =
              (s1\<lparr>tbl_library_cache := fold insert_or_replace items (tbl_library_cache s1)\<rparr>, None)"
    using AddToLibraryCache_result[of f s1 items] by blast
  then show ?thesis
  proof cases
    case failed
    then have "save_cache f s listID syncType items =
                 (HttpError 500 ''Failed to save library cache'', s1)"
      unfolding sc by simp
    then show ?thesis
      unfolding s1 by blast
  next
    case ok
    then have r: "save_cache f s listID syncType items =
       (SyncSuccess (length items),
        s1\<lparr>tbl_library_cache := fold insert_or_replace items (tbl_library_cache s1)\<rparr>)"
      unfolding sc by simp
    have a: "filter (\<lambda>r. \<not> in_slice listID dbType r)
               (fold insert_or_replace items (tbl_library_cache s1))
              = filter (\<lambda>r. \<not> in_slice listID dbType r) (tbl_library_cache s)"
      using fold_insert_outside[OF slice, of "tbl_library_cache s1"] out1 by simp
    have b: "filter (in_slice listID dbType)
               (fold insert_or_replace items (tbl_library_cache s1)) = items"
      if "\<not> clear_fails f" "distinct (map c_KodiID items)"
    proof -
      have e: "filter (in_slice listID dbType) (tbl_library_cache s1) = []"
        using that(1) unfolding s1 by simp
      then have "c_KodiID ` set (filter (in_slice listID dbType) (tbl_library_cache s1))
                   \<inter> c_KodiID ` set items = {}"
        by simp
      from fold_insert_inside[OF slice that(2) this] e show ?thesis
        by simp
    qed
    show ?thesis
      unfolding r using a b by simp
  qed
qed

text \<open>
  Claim C1, as amended. For a sync of a list and kind whose fetch succeeded with items
  of distinct ids, the handler ends in one of two ways. Either it reports success with
  the number of fetched items, the rows of every other list or kind are as before and,
  when the clear succeeded, the rows of this list and kind are exactly the fetched
  items in the order their units finished, as many as were fetched. Or the insert
  failed: the handler reports the failure and the cache is what the clear left, the
  old rows when the clear failed too and no row of this list and kind otherwise. The
  clear and the insert are two database operations, and only the insert is a
  transaction.
\<close>

theorem handleSyncLibrary_replaces_slice:
  assumes "q_list_id req = Some listID"
    and "getKodiClient env s listID = Inr client"
    and "(q_content_type req = ''movie'' \<and> dbType = ''movie''
            \<and> GetMovies (env_net env) client = (fetched, None))
         \<or> (q_content_type req = ''tv'' \<and> dbType = ''show''
            \<and> GetTVShows (env_net env) client = (fetched, None))"
    and "mset (env_schedule env fetched) = mset fetched"
    and "distinct (map ID fetched)"
  shows "(fst (handleSyncLibrary env s req) = SyncSuccess (length fetched)
          \<and> filter (\<lambda>r. \<not> in_slice listID dbType r)
                (tbl_library_cache (snd (handleSyncLibrary env s req)))
              = filter (\<lambda>r. \<not> in_slice listID dbType r) (tbl_library_cache s)
          \<and> (\<not> clear_fails (env_faults env) \<longrightarrow>
                map c_KodiID (filter (in_slice listID dbType)
                  (tbl_library_cache (snd (handleSyncLibrary env s req))))
                  = map ID (env_schedule env fetched)
                \<and> length (filter (in_slice listID dbType)
                    (tbl_library_cache (snd (handleSyncLibrary env s req)))) = length fetched))
       \<or> (fst (handleSyncLibrary env s req) = HttpError 500 ''Failed to save library cache''
          \<and> tbl_library_cache (snd (handleSyncLibrary env s req))
              = (if clear_fails (env_faults env) then tbl_library_cache s
                 else filter (\<lambda>r. \<not> in_slice listID dbType r) (tbl_library_cache s)))"
proof -
  define sched where "sched = env_schedule env fetched"
  have len: "length sched = length fetched"
    unfolding sched_def using assms(4) by (metis size_mset)
  have dist: "distinct (map ID sched)"
  proof -
    have "mset (map ID sched) = mset (map ID fetched)"
      unfolding sched_def using assms(4) by (metis mset_map)
    then show ?thesis
      using assms(5) by (metis mset_eq_imp_distinct_iff)
  qed
  obtain items files syncType where
    h: "handleSyncLibrary env s req
          = save_cache (env_faults env) (s\<lparr>poster_files := files\<rparr>) listID syncType items"
    and st: "dbType = (if syncType = ''tv'' then ''show'' else ''movie'')"
    and sl: "\<forall>i \<in> set items. in_slice listID dbType i"
    and ids: "map c_KodiID items = map ID sched"
  proof -
    from assms(3) show ?thesis
    proof
      assume a: "q_content_type req = ''movie'' \<and> dbType = ''movie''
            \<and> GetMovies (env_net env) client = (fetched, None)"
      define r where "r = fold (movie_unit (env_images env) client listID) sched ([], poster_files s)"
      have "handleSyncLibrary env s req
          = save_cache (env_faults env) (s\<lparr>poster_files := snd r\<rparr>) listID ''movie'' (fst r)"
        using a assms(1,2) unfolding handleSyncLibrary_def r_def sched_def
        by (simp add: Let_def split: prod.splits)
      moreover have "\<forall>i \<in> set (fst r). in_slice listID dbType i"
        unfolding r_def using a fold_movie_unit_slice[of "[]" listID] by simp
      moreover have "map c_KodiID (fst r) = map ID sched"
        unfolding r_def using fold_movie_unit_ids[of _ _ _ sched "[]"] by simp
      ultimately show ?thesis
        using that[of "snd r" "''movie''" "fst r"] a by simp
    next
      assume a: "q_content_type req = ''tv'' \<and> dbType = ''show''
            \<and> GetTVShows (env_net env) client = (fetched, None)"
      define r where "r = fold (show_unit (env_images env) client listID) sched ([], poster_files s)"
      have "handleSyncLibrary env s req
          = save_cache (env_faults env) (s\<lparr>poster_files := snd r\<rparr>) listID ''tv'' (fst r)"
        using a assms(1,2) unfolding handleSyncLibrary_def r_def sched_def
        by (simp add: Let_def split: prod.splits)
      moreover have "\<forall>i \<in> set (fst r). in_slice listID dbType i"
        unfolding r_def using a fold_show_unit_slice[of "[]" listID] by simp
      moreover have "map c_KodiID (fst r) = map ID sched"
        unfolding r_def using fold_show_unit_ids[of _ _ _ sched "[]"] by simp
      ultimately show ?thesis
        using that[of "snd r" "''tv''" "fst r"] a by simp
    qed
  qed
  have li: "length items = length fetched"
    using ids len by (metis length_map)
  have di: "distinct (map c_KodiID items)"
    using ids dist by simp
  show ?thesis
    using save_cache_result[OF sl st, of "env_faults env" "s\<lparr>poster_files := files\<rparr>"]
    unfolding h[symmetric] sched_def[symmetric]
    using li di ids by auto
qed

theorem handleSyncLibrary_replaces_slice_witness:
  "q_list_id sync_movies = Some 1
   \<and> getKodiClient (mock_env no_faults) (stale_store [living_room]) 1
       = Inr \<lparr>HostURL = ''mock'', Username = [], Password = []\<rparr>
   \<and> GetMovies (env_net (mock_env no_faults)) \<lparr>HostURL = ''mock'', Username = [], Password = []\<rparr>
       = (mock_movies, None)
   \<and> distinct (map ID mock_movies)
   \<and> length (filter (in_slice 1 ''movie'') (tbl_library_cache (stale_store [living_room]))) = 3
   \<and> fst (handleSyncLibrary (mock_env no_faults) (stale_store [living_room]) sync_movies)
       = SyncSuccess 2
   \<and> length (filter (in_slice 1 ''movie'')
        (tbl_library_cache
          (snd (handleSyncLibrary (mock_env no_faults) (stale_store [living_room]) sync_movies))))
       = 2"
proof -
  let ?env = "mock_env no_faults"
  let ?s = "stale_store [living_room]"
  let ?c = "\<lparr>HostURL = ''mock'', Username = [], Password = []\<rparr>"
  have q: "q_list_id sync_movies = Some 1"
    by (simp add: sync_movies_def)
  have g: "getKodiClient ?env ?s 1 = Inr ?c"
    by code_simp
  have m: "GetMovies (env_net ?env) ?c = (mock_movies, None)"
    by (simp add: GetMovies_def)
  have k: "(q_content_type sync_movies = ''movie'' \<and> ''movie'' = ''movie''
            \<and> GetMovies (env_net ?env) ?c = (mock_movies, None))
         \<or> (q_content_type sync_movies = ''tv'' \<and> ''movie'' = ''show''
            \<and> GetTVShows (env_net ?env) ?c = (mock_movies, None))"
    using m by (simp add: sync_movies_def)
  have p: "mset (env_schedule ?env mock_movies) = mset mock_movies"
    by (simp add: mock_env_def)
  have d: "distinct (map ID mock_movies)"
    by (simp add: mock_movies_def)
  have o: "length (filter (in_slice 1 ''movie'') (tbl_library_cache ?s)) = 3"
    by code_simp
  have nf: "\<not> clear_fails (env_faults ?env)"
    by (simp add: mock_env_def no_faults_def)
  have r: "fst (handleSyncLibrary ?env ?s sync_movies) = SyncSuccess 2"
    by code_simp
  have l: "length mock_movies = 2"
    by (simp add: mock_movies_def)
  have n: "length (filter (in_slice 1 ''movie'')
        (tbl_library_cache (snd (handleSyncLibrary ?env ?s sync_movies)))) = 2"
    using handleSyncLibrary_replaces_slice[OF q g k p d] r nf l by auto
  from q g m d o r n show ?thesis
    by (intro conjI)
qed

text \<open>
  Claim C1 as stated fails. With three rows cached and two items fetched, a failing
  commit of the insert leaves no row of the list and kind and a failure response: the
  clear was committed alone. And the clear is keyed by the list, not by the host: a
  sync through a second list of the same host leaves the three rows of the first list
  beside the two new ones.
\<close>

theorem handleSyncLibrary_partial_commit_counterexample:
  "length (filter (in_slice 1 ''movie'') (tbl_library_cache (stale_store [living_room]))) = 3
   \<and> handleSyncLibrary (mock_env (no_faults\<lparr>commit_fails := True\<rparr>)) (stale_store [living_room])
        sync_movies
      = (HttpError 500 ''Failed to save library cache'',
         \<lparr>tbl_lists = [living_room], tbl_library_cache = [], poster_files = []\<rparr>)
   \<and> l_KodiHost bedroom = l_KodiHost living_room
   \<and> fst (handleSyncLibrary (mock_env no_faults) (stale_store [living_room, bedroom])
            (sync_movies\<lparr>q_list_id := Some 2\<rparr>)) = SyncSuccess 2
   \<and> length (filter (\<lambda>r. c_MediaType r = ''movie'')
        (tbl_library_cache
          (snd (handleSyncLibrary (mock_env no_faults) (stale_store [living_room, bedroom])
                 (sync_movies\<lparr>q_list_id := Some 2\<rparr>))))) = 5"
  by code_simp

section \<open>Properties of concurrent calls of downloadBestImage\<close>

lemma length_caller_step [simp]:
  "length (callers (caller_step env client it mt i s)) = length (callers s)"
  by (simp add: caller_step_def Let_def set_caller_def unlock_return_def LoadOrStore_def
      split: caller.splits fetch_reply.splits option.splits)


lemma length_flight_step [simp]:
  "length (callers (flight_step env client it mt ev s)) = length (callers s)"
  by (cases ev) (simp_all add: sweep_def)

lemma length_run [simp]:
  "length (callers (run_callers env client it mt sched s)) = length (callers s)"
  unfolding run_callers_def by (induction sched arbitrary: s) simp_all



























lemma step_Returned:
  assumes "callers s ! i = Returned r"
  shows "caller_step env client it mt i s = s"
  using assms by (simp add: caller_step_def Let_def)

lemma step_out_of_range:
  "\<not> i < length (callers s) \<Longrightarrow> caller_step env client it mt i s = s"
  by (simp add: caller_step_def Let_def)



lemma other_LoadOrStore [simp]:
  "present (LoadOrStore i s) = present s" "fetches (LoadOrStore i s) = fetches s"
  by (simp_all add: LoadOrStore_def set_caller_def split: option.splits)




























text \<open>
  One call alone, scheduled six times, returns what \<open>downloadBestImage\<close> returns when
  no other call creates the file.
\<close>

lemma returned_stays:
  "callers s = [Returned r] \<Longrightarrow> callers (run_callers env client it mt sched s) = [Returned r]"
proof (induction sched arbitrary: s)
  case Nil
  then show ?case
    by (simp add: run_callers_def)
next
  case (Cons a sched)
  have "callers (flight_step env client it mt a s) = [Returned r]"
  proof (cases a)
    case (Run i)
    show ?thesis
    proof (cases "i = 0")
      case True
      then show ?thesis
        using Cons.prems Run by (simp add: step_Returned)
    next
      case False
      then show ?thesis
        using Cons.prems Run by (simp add: step_out_of_range)
    qed
  next
    case Sweep
    then show ?thesis
      using Cons.prems by (simp add: sweep_def)
  qed
  from Cons.IH[OF this] show ?case
    by (simp add: run_callers_def)
qed

lemma single_caller:
  assumes "\<not> appeared env (''data/posters/'' @ poster_file_name mt it)"
  shows "callers (run_callers env client it mt [Run 0, Run 0, Run 0, Run 0, Run 0, Run 0]
            (start_flight 1 (''data/posters/'' @ poster_file_name mt it \<in> set files)))
          = [Returned (fst (downloadBestImage env files client it mt))]"
proof -
  define path where "path = ''data/posters/'' @ poster_file_name mt it"
  define url where "url = ''/api/posters/'' @ poster_file_name mt it"
  define target where "target = image_target_url client (best_image_uri it)"
  have step: "caller_step env client it mt 0 s =
      (case callers s ! 0 of
         AtStart \<Rightarrow>
           if best_image_uri it = [] then set_caller 0 (Returned ([], None)) s
           else if HostURL client = ''mock'' then set_caller 0 (Returned (best_image_uri it, None)) s
           else if present s then set_caller 0 (Returned (url, None)) s
           else set_caller 0 AtRegistry s
       | AtRegistry \<Rightarrow> LoadOrStore 0 s
       | AtLock mu \<Rightarrow>
           if mutexes s ! mu then s
           else (set_caller 0 (InLock mu) s)\<lparr>mutexes := (mutexes s)[mu := True]\<rparr>
       | InLock mu \<Rightarrow>
           if present s then unlock_return mu 0 (url, None) s
           else if \<not> request_valid env target then unlock_return mu 0 ([], Some RequestError) s
           else set_caller 0 (Fetching mu) s
       | Fetching mu \<Rightarrow>
           (case fetch env target (basic_auth client) of
              FetchFailed \<Rightarrow>
                unlock_return mu 0 ([], Some TransportError) (s\<lparr>fetches := Suc (fetches s)\<rparr>)
            | Status code \<Rightarrow>
                if code \<noteq> 200 then
                  (if code = 404
                   then unlock_return mu 0 ([], None) (s\<lparr>fetches := Suc (fetches s)\<rparr>)
                   else unlock_return mu 0 ([], Some (ImageStatusError code))
                          (s\<lparr>fetches := Suc (fetches s)\<rparr>))
                else if \<not> create_ok env path
                  then unlock_return mu 0 ([], Some FileError) (s\<lparr>fetches := Suc (fetches s)\<rparr>)
                else set_caller 0 (Copying mu) (s\<lparr>fetches := Suc (fetches s), present := True\<rparr>))
       | Copying mu \<Rightarrow>
           if \<not> copy_ok env path then unlock_return mu 0 ([], Some FileError) s
           else unlock_return mu 0 (url, None) s
       | Returned r \<Rightarrow> s)"
    if "length (callers s) = 1" for s
    using that unfolding caller_step_def Let_def path_def url_def target_def by simp
  have seq: "fst (downloadBestImage env files client it mt) =
      (if best_image_uri it = [] then ([], None)
       else if HostURL client = ''mock'' then (best_image_uri it, None)
       else if path \<in> set files then (url, None)
       else if \<not> request_valid env target then ([], Some RequestError)
       else
         (case fetch env target (basic_auth client) of
            FetchFailed \<Rightarrow> ([], Some TransportError)
          | Status code \<Rightarrow>
              if code \<noteq> 200 then
                (if code = 404 then ([], None) else ([], Some (ImageStatusError code)))
              else if \<not> create_ok env path then ([], Some FileError)
              else if \<not> copy_ok env path then ([], Some FileError)
              else (url, None)))"
    using assms unfolding downloadBestImage_def Let_def path_def url_def target_def
    by (simp split: fetch_reply.splits)
  note defs = step set_caller_def unlock_return_def LoadOrStore_def
  let ?run = "\<lambda>s. fold (flight_step env client it mt) [Run 0, Run 0, Run 0, Run 0, Run 0] s"
  have stay: "callers (fold (flight_step env client it mt) sched s) = [Returned r]"
    if "callers s = [Returned r]" for s r sched
    using returned_stays[OF that] unfolding run_callers_def .
  show ?thesis
  proof (cases "best_image_uri it = [] \<or> HostURL client = ''mock'' \<or> path \<in> set files")
    case True
    have "callers (caller_step env client it mt 0 (start_flight 1 (path \<in> set files)))
            = [Returned (fst (downloadBestImage env files client it mt))]"
      using True unfolding seq by (auto simp: defs start_flight_def)
    from stay[OF this, of "[Run 0, Run 0, Run 0, Run 0, Run 0]"] show ?thesis
      unfolding run_callers_def path_def[symmetric] by simp
  next
    case False
    note early = False
    have r1: "caller_step env client it mt 0 (start_flight (Suc 0) (path \<in> set files))
        = \<lparr>callers = [AtRegistry], mutexes = [], flightMap = None, present = False, fetches = 0\<rparr>"
      using early by (simp add: defs start_flight_def)
    have r2: "caller_step env client it mt 0 \<lparr>callers = [AtRegistry], mutexes = [], flightMap = None, present = False, fetches = 0\<rparr> = \<lparr>callers = [AtLock 0], mutexes = [False], flightMap = Some 0, present = False, fetches = 0\<rparr>"
      by (simp add: defs)
    have r3: "caller_step env client it mt 0 \<lparr>callers = [AtLock 0], mutexes = [False], flightMap = Some 0, present = False, fetches = 0\<rparr> = \<lparr>callers = [InLock 0], mutexes = [True], flightMap = Some 0, present = False, fetches = 0\<rparr>"
      by (simp add: defs)
    show ?thesis
    proof (cases "request_valid env target")
      case False
      have r4: "callers (caller_step env client it mt 0 \<lparr>callers = [InLock 0], mutexes = [True], flightMap = Some 0, present = False, fetches = 0\<rparr>)
          = [Returned (fst (downloadBestImage env files client it mt))]"
        using early False unfolding seq by (simp add: defs)
      from stay[OF r4, of "[Run 0, Run 0]"] show ?thesis
        unfolding run_callers_def path_def[symmetric] by (simp add: r1 r2 r3)
    next
      case True
      note valid = True
      have r4: "caller_step env client it mt 0 \<lparr>callers = [InLock 0], mutexes = [True], flightMap = Some 0, present = False, fetches = 0\<rparr> = \<lparr>callers = [Fetching 0], mutexes = [True], flightMap = Some 0, present = False, fetches = 0\<rparr>"
        using valid by (simp add: defs)
      show ?thesis
      proof (cases "fetch env target (basic_auth client) = Status 200 \<and> create_ok env path")
        case False
        have r5: "callers (caller_step env client it mt 0 \<lparr>callers = [Fetching 0], mutexes = [True], flightMap = Some 0, present = False, fetches = 0\<rparr>)
            = [Returned (fst (downloadBestImage env files client it mt))]"
          using early valid False unfolding seq
          by (auto simp: defs split: fetch_reply.splits)
        from stay[OF r5, of "[Run 0]"] show ?thesis
          unfolding run_callers_def path_def[symmetric] by (simp add: r1 r2 r3 r4)
      next
        case True
        have r5: "caller_step env client it mt 0 \<lparr>callers = [Fetching 0], mutexes = [True], flightMap = Some 0, present = False, fetches = 0\<rparr> = \<lparr>callers = [Copying 0], mutexes = [True], flightMap = Some 0, present = True, fetches = Suc 0\<rparr>"
          using True by (simp add: defs)
        have r6: "callers (caller_step env client it mt 0 \<lparr>callers = [Copying 0], mutexes = [True], flightMap = Some 0, present = True, fetches = Suc 0\<rparr>)
            = [Returned (fst (downloadBestImage env files client it mt))]"
          using early valid True unfolding seq by (simp add: defs)
        show ?thesis
          unfolding run_callers_def path_def[symmetric] by (simp add: r1 r2 r3 r4 r5 r6)
      qed
    qed
  qed
qed











section \<open>Properties of the schema migrator\<close>

lemma map_of_set_table:
  "map_of db name = Some old \<Longrightarrow> map_of (set_table name t db) name = Some t"
  by (induction db) (auto simp: set_table_def split: if_splits)

lemma migration_2_never_succeeds: "isl (migration_2 tx)"
proof (cases "map_of tx ''lists''")
  case None
  then show ?thesis
    by (simp add: migration_2_def exec_stmt_def)
next
  case (Some t)
  show ?thesis
  proof (cases "''content_type'' \<in> set (t_columns t) \<and> ''name'' \<in> set (t_columns t)")
    case False
    then show ?thesis
      using Some by (auto simp: migration_2_def exec_stmt_def)
  next
    case True
    define t' where
      "t' = t\<lparr>t_rows := map (update_row ''content_type'' (TextV ''tv'') ''name'' (TextV ''tv''))
                          (t_rows t)\<rparr>"
    have u: "exec_stmt (UpdateWhere ''lists'' ''content_type'' (TextV ''tv'') ''name'' (TextV ''tv'')) tx
               = Inr (set_table ''lists'' t' tx)"
      using Some True by (simp add: exec_stmt_def t'_def)
    have m: "map_of (set_table ''lists'' t' tx) ''lists'' = Some t'"
      using Some by (rule map_of_set_table)
    have c: "''name'' \<in> set (t_columns t')"
      using True by (simp add: t'_def)
    have "isl (exec_stmt (RenameColumn ''lists'' ''type'' ''name'') (set_table ''lists'' t' tx))"
      using m c by (simp add: exec_stmt_def)
    then show ?thesis
      unfolding migration_2_def u by (auto split: sum.splits)
  qed
qed

text \<open>
  Claim C2 does not hold of the code. On the database without tables \<open>migrate\<close> applies
  migration 1 and records version 1; on the legacy database, whose \<open>lists\<close> table has
  a \<open>type\<close> column and no \<open>name\<close> column, it infers version 1, records it and leaves
  the table as it was. Both runs then fail in migration 2, whose first statement
  updates the column \<open>content_type\<close> where the column \<open>name\<close> is \<open>tv\<close>, before the
  statements that create these two columns. Migration 2 succeeds on no database at all:
  its first statement needs the column \<open>name\<close> and its second one must not find it.
\<close>

theorem migrate_fails_at_migration_2:
  "fst (migrate empty_database)
     = Some (MigrationFailed 2 (BackfillFailed (NoSuchColumn ''content_type'')))
   \<and> max_version (snd (migrate empty_database)) = Inr 1
   \<and> column_readable legacy_database ''lists'' ''type''
   \<and> \<not> column_readable legacy_database ''lists'' ''name''
   \<and> fst (migrate legacy_database)
     = Some (MigrationFailed 2 (BackfillFailed (NoSuchColumn ''content_type'')))
   \<and> max_version (snd (migrate legacy_database)) = Inr 1
   \<and> map_of (snd (migrate legacy_database)) ''lists'' = map_of legacy_database ''lists''
   \<and> (\<forall>tx. isl (migration_2 tx))"
proof -
  have e: "fst (migrate empty_database)
     = Some (MigrationFailed 2 (BackfillFailed (NoSuchColumn ''content_type'')))"
    "max_version (snd (migrate empty_database)) = Inr 1"
    by code_simp+
  have l: "column_readable legacy_database ''lists'' ''type''"
    "\<not> column_readable legacy_database ''lists'' ''name''"
    "fst (migrate legacy_database)
     = Some (MigrationFailed 2 (BackfillFailed (NoSuchColumn ''content_type'')))"
    "max_version (snd (migrate legacy_database)) = Inr 1"
    "map_of (snd (migrate legacy_database)) ''lists'' = map_of legacy_database ''lists''"
    by code_simp+
  from e l migration_2_never_succeeds show ?thesis
    by blast
qed

end
